theory Spec2Isabelle
  imports Main "HOL-Library.Sublist"
begin

section \<open>Python text\<close>

text \<open>
  A Python \<open>str\<close> is modelled as a \<open>string\<close> whose characters stand for the code points
  below 256. The character classes below are the ones Python uses on that range:
  \<open>str.isspace\<close> (used by \<open>str.strip\<close> and by the regular expression class
  \<open>\s\<close>), the line boundaries of \<open>str.splitlines\<close>, the word characters of
  \<open>\w\<close>, and the upper-case letters changed by \<open>str.lower\<close>.
\<close>

definition is_space :: "char \<Rightarrow> bool" where
  "is_space c = (let n = (of_char c :: nat) in
     (9 \<le> n \<and> n \<le> 13) \<or> (28 \<le> n \<and> n \<le> 32) \<or> n = 133 \<or> n = 160)"

definition is_linebreak :: "char \<Rightarrow> bool" where
  "is_linebreak c = (let n = (of_char c :: nat) in
     (10 \<le> n \<and> n \<le> 13) \<or> (28 \<le> n \<and> n \<le> 30) \<or> n = 133)"

definition is_word :: "char \<Rightarrow> bool" where
  "is_word c = (let n = (of_char c :: nat) in
     (48 \<le> n \<and> n \<le> 57) \<or> (65 \<le> n \<and> n \<le> 90) \<or> n = 95 \<or> (97 \<le> n \<and> n \<le> 122) \<or>
     n = 170 \<or> n = 178 \<or> n = 179 \<or> n = 181 \<or> n = 185 \<or> n = 186 \<or>
     (188 \<le> n \<and> n \<le> 190) \<or> (192 \<le> n \<and> n \<le> 214) \<or> (216 \<le> n \<and> n \<le> 246) \<or>
     (248 \<le> n \<and> n \<le> 255))"

definition lower_char :: "char \<Rightarrow> char" where
  "lower_char c = (let n = (of_char c :: nat) in
     if (65 \<le> n \<and> n \<le> 90) \<or> (192 \<le> n \<and> n \<le> 222 \<and> n \<noteq> 215)
     then char_of (n + 32) else c)"

definition lower :: "string \<Rightarrow> string" where
  "lower s = map lower_char s"

definition strip :: "string \<Rightarrow> string" where
  "strip s = rev (dropWhile is_space (rev (dropWhile is_space s)))"

text \<open>\<open>contains sub s\<close> is Python's \<open>sub in s\<close>.\<close>

fun contains :: "string \<Rightarrow> string \<Rightarrow> bool" where
  "contains sub [] = (sub = [])"
| "contains sub (c # cs) = (prefix sub (c # cs) \<or> contains sub cs)"

text \<open>\<open>str.splitlines()\<close>: a carriage return followed by a line feed is one boundary,
  and a boundary at the very end opens no further line.\<close>

fun split_acc :: "string \<Rightarrow> string \<Rightarrow> string list" where
  "split_acc acc [] = (if acc = [] then [] else [rev acc])"
| "split_acc acc [c] = (if is_linebreak c then [rev acc] else [rev (c # acc)])"
| "split_acc acc (c # d # cs) =
     (if c = CHR 0x0D \<and> d = CHR 0x0A then rev acc # split_acc [] cs
      else if is_linebreak c then rev acc # split_acc [] (d # cs)
      else split_acc (c # acc) (d # cs))"

definition splitlines :: "string \<Rightarrow> string list" where
  "splitlines s = split_acc [] s"

text \<open>\<open>sep.join(xs)\<close>.\<close>

fun join :: "string \<Rightarrow> string list \<Rightarrow> string" where
  "join sep [] = []"
| "join sep [x] = x"
| "join sep (x # y # ys) = x @ sep @ join sep (y # ys)"

text \<open>\<open>str(n)\<close> for a non-negative and for any integer.\<close>

definition digit_char :: "nat \<Rightarrow> char" where
  "digit_char d = char_of (48 + d)"

function str_nat :: "nat \<Rightarrow> string" where
  "str_nat n = (if n < 10 then [digit_char n] else str_nat (n div 10) @ [digit_char (n mod 10)])"
  by pat_completeness auto
termination
  by (relation "measure id") auto

declare str_nat.simps [simp del]

definition str_int :: "int \<Rightarrow> string" where
  "str_int i = (if i < 0 then CHR ''-'' # str_nat (nat (- i)) else str_nat (nat i))"


section \<open>Code Extractor\<close>

text \<open>
  \<open>_CODE_BLOCK_RE = re.compile(r"```(?:python)?\s*([\s\S]*?)```", re.I)\<close> and
  \<open>findall\<close>. \<open>find_fence\<close> splits a text at the first occurrence of three
  backticks. \<open>match_at\<close> is one match attempt of the expression at the head of the
  text: the opening fence, the optional tag in any letter case, the longest run of
  white space, and then the shortest text up to the next fence; it yields the captured
  group and the text after the match. The greedy choices are the only ones that need
  trying: neither the tag nor white space holds a backtick, so giving them back exposes
  no further closing fence (see \<open>find_fence_skip\<close>). \<open>findall_blocks\<close> scans
  from left to right as \<open>findall\<close> does: on a match it records the group and goes on
  behind the match, otherwise it moves one character on.
\<close>

definition fence :: string where
  "fence = ''```''"

fun find_fence :: "string \<Rightarrow> (string \<times> string) option" where
  "find_fence [] = None"
| "find_fence (c # cs) =
     (if prefix fence (c # cs) then Some ([], drop 3 (c # cs))
      else (case find_fence cs of None \<Rightarrow> None | Some (b, a) \<Rightarrow> Some (c # b, a)))"

definition skip_tag :: "string \<Rightarrow> string" where
  "skip_tag r = (if lower (take 6 r) = ''python'' then drop 6 r else r)"

definition match_at :: "string \<Rightarrow> (string \<times> string) option" where
  "match_at t =
     (if prefix fence t then find_fence (dropWhile is_space (skip_tag (drop 3 t))) else None)"

lemma find_fence_shorter: "find_fence t = Some (b, a) \<Longrightarrow> length a < length t"
proof (induction t arbitrary: b a)
  case Nil
  then show ?case by simp
next
  case (Cons c cs)
  show ?case
  proof (cases "prefix fence (c # cs)")
    case True
    with Cons.prems show ?thesis by (auto simp: fence_def)
  next
    case False
    with Cons.prems obtain b' where "find_fence cs = Some (b', a)"
      by (auto split: option.splits)
    from Cons.IH [OF this] show ?thesis by simp
  qed
qed

lemma match_at_shorter: "match_at t = Some (b, a) \<Longrightarrow> length a < length t"
proof -
  assume m: "match_at t = Some (b, a)"
  let ?r = "dropWhile is_space (skip_tag (drop 3 t))"
  from m have f: "find_fence ?r = Some (b, a)"
    by (simp add: match_at_def split: if_splits)
  have "length ?r \<le> length (skip_tag (drop 3 t))"
    by (rule length_dropWhile_le)
  also have "\<dots> \<le> length t"
    by (simp add: skip_tag_def)
  finally show ?thesis
    using find_fence_shorter [OF f] by simp
qed

function findall_blocks :: "string \<Rightarrow> string list" where
  "findall_blocks t =
     (if t = [] then []
      else (case match_at t of
              Some (body, post) \<Rightarrow> body # findall_blocks post
            | None \<Rightarrow> findall_blocks (tl t)))"
  by pat_completeness auto
termination
  by (relation "measure length") (auto dest: match_at_shorter)

declare findall_blocks.simps [simp del]

text \<open>
  The two line patterns. \<open>_CODE_LIKE_LINE\<close> of the Gemini adapter is
  \<open>^\s*(from\s+\w+|import\s+\w+|def\s+\w+\(|class\s+\w+\(|#|"""|\<close>\<open>'''\<close>\<open>)\<close>;
  the pattern \<open>pat\<close> of the Claude and OpenAI adapters asks for no parenthesis behind
  the name of a \<open>def\<close> or \<open>class\<close>. \<open>search\<close> on a pattern anchored by \<open>^\<close>
  matches at the start of the line only.
\<close>

definition kw_name :: "string \<Rightarrow> string \<Rightarrow> bool" where
  "kw_name kw s = (prefix kw s \<and>
     (let r = drop (length kw) s; r' = dropWhile is_space r
      in r' \<noteq> r \<and> r' \<noteq> [] \<and> is_word (hd r')))"

definition kw_name_paren :: "string \<Rightarrow> string \<Rightarrow> bool" where
  "kw_name_paren kw s = (kw_name kw s \<and>
     (let r' = dropWhile is_space (drop (length kw) s); r'' = dropWhile is_word r'
      in r'' \<noteq> [] \<and> hd r'' = CHR ''(''))"

definition doc_start :: "string \<Rightarrow> bool" where
  "doc_start s = (prefix ''#'' s \<or> prefix [CHR 0x22, CHR 0x22, CHR 0x22] s \<or>
                  prefix [CHR 0x27, CHR 0x27, CHR 0x27] s)"

definition CODE_LIKE_LINE :: "string \<Rightarrow> bool" where
  "CODE_LIKE_LINE ln = (let s = dropWhile is_space ln in
     kw_name ''from'' s \<or> kw_name ''import'' s \<or>
     kw_name_paren ''def'' s \<or> kw_name_paren ''class'' s \<or> doc_start s)"

definition pat :: "string \<Rightarrow> bool" where
  "pat ln = (let s = dropWhile is_space ln in
     kw_name ''from'' s \<or> kw_name ''import'' s \<or>
     kw_name ''def'' s \<or> kw_name ''class'' s \<or> doc_start s)"

text \<open>
  The loop \<open>for i, ln in enumerate(lines): if p.search(ln): return
  "\n".join(lines[i:]).strip()\<close>; \<open>None\<close> when it runs to its end.
\<close>

fun from_first_match :: "(string \<Rightarrow> bool) \<Rightarrow> string list \<Rightarrow> string option" where
  "from_first_match p [] = None"
| "from_first_match p (ln # lns) =
     (if p ln then Some (strip (join ''\<newline>'' (ln # lns))) else from_first_match p lns)"

text \<open>\<open>_extract_code\<close> of the Gemini adapter, and \<open>_clean_code\<close>, which the
  Claude and the OpenAI adapter each define with the same body.\<close>

definition extract_code :: "string \<Rightarrow> string" where
  "extract_code raw =
     (let text = strip raw; blocks = findall_blocks text in
      if blocks \<noteq> [] then strip (last blocks)
      else (case from_first_match CODE_LIKE_LINE (splitlines text) of
              Some code \<Rightarrow> code
            | None \<Rightarrow> text))"

definition clean_code :: "string \<Rightarrow> string" where
  "clean_code raw =
     (let text = strip raw; blocks = findall_blocks text in
      if blocks \<noteq> [] then strip (last blocks)
      else (case from_first_match pat (splitlines text) of
              Some code \<Rightarrow> code
            | None \<Rightarrow> text))"


text \<open>
  A text holds a fenced block when two fences occur in it one after the other without
  overlap; \<open>findall_blocks_iff\<close> shows that these are the texts on which the
  expression matches. What stands between the opening fence and the captured group is
  the optional tag followed by white space.
\<close>

definition has_fenced_block :: "string \<Rightarrow> bool" where
  "has_fenced_block t = (\<exists>a m c. t = a @ fence @ m @ fence @ c)"

definition is_header :: "string \<Rightarrow> bool" where
  "is_header hdr = (\<exists>tag ws. hdr = tag @ ws \<and> (tag = [] \<or> lower tag = ''python'') \<and>
                      (\<forall>c \<in> set ws. is_space c))"

text \<open>Three replies: two fenced blocks with prose around them, code behind a line of
  prose, and prose only.\<close>

definition raw_fenced :: string where
  "raw_fenced = ''Plan first:\<newline>```\<newline>draft = 1\<newline>```\<newline>Final:\<newline>```python\<newline>x = 2\<newline>print(x)\<newline>```  \<newline>''"

definition raw_lines :: string where
  "raw_lines = ''Sure, here it is.\<newline>import os\<newline>print(os.getcwd())\<newline>''"

definition raw_prose :: string where
  "raw_prose = ''  I cannot help with that.  ''"


section \<open>Gemini Backend Adapter\<close>

text \<open>
  Python exceptions are values; a call that may raise returns \<open>exn + 'a\<close>, with
  \<open>Inl\<close> for the exception.
\<close>

datatype exn =
  RuntimeError string
  | OSError string
  | TimeoutExpired
  | UnboundLocalError string
  | ValueError string
  | RecursionError string

text \<open>
  What one \<open>client.models.generate_content\<close> request comes back with: a reply, with
  its \<open>text\<close> attribute and the text of the first part of its first candidate
  (\<open>None\<close> where the reply has no candidate or reading it raises), or an exception,
  given by the status and message that the handler reads off it (\<open>status\<close> stays
  \<open>None\<close> unless the exception carries an error dictionary).
\<close>

datatype response =
  Reply string "string option"
  | Failure "int option" string

text \<open>
  The state the adapter works on: the dictionary held in \<open>cache/code_cache.json\<close>,
  the requests sent to the service so far (model, contents, system instruction), and
  the state of the service itself, which the adapter cannot see. The environment gives
  \<open>MODEL_CHAIN\<close>, the SHA-256 hex digest, and the service. Not modelled: console
  output, the sleep between attempts, and the debugging copy of the reply in
  \<open>temp.py\<close>. The cache file is taken to be readable and writable.
\<close>

record 'x gstate =
  cache :: "string \<rightharpoonup> string"
  requests :: "(string \<times> string \<times> string) list"
  service :: 'x

record 'x genv =
  MODEL_CHAIN :: "string list"
  sha256_hexdigest :: "string \<Rightarrow> string"
  generate_content :: "string \<Rightarrow> string \<Rightarrow> string \<Rightarrow> 'x \<Rightarrow> response \<times> 'x"

definition prompt_key :: "'x genv \<Rightarrow> string \<Rightarrow> string \<Rightarrow> string" where
  "prompt_key env system_prompt user_prompt =
     sha256_hexdigest env (system_prompt @ ''\<newline>---\<newline>'' @ user_prompt)"

definition should_retry :: "int option \<Rightarrow> string \<Rightarrow> bool" where
  "should_retry status_code message =
     (if status_code \<in> {Some 429, Some 500, Some 502, Some 503, Some 504} then True
      else if status_code \<in> {Some 0, None} then True
      else if contains ''internal'' (lower message) then True
      else if contains ''timeout'' (lower message) then True
      else False)"

text \<open>
  The body of the \<open>try\<close> of one attempt. \<open>content\<close> is the auxiliary context,
  given by the text it is rendered to. The result is the code, or the status and message
  of the exception the handler sees; an empty extraction raises inside the \<open>try\<close>
  like a failed request.
\<close>

definition attempt ::
  "'x genv \<Rightarrow> string \<Rightarrow> string \<Rightarrow> string option \<Rightarrow> bool \<Rightarrow> string \<Rightarrow> 'x gstate
     \<Rightarrow> ((int option \<times> string) + string) \<times> 'x gstate" where
  "attempt env system_prompt user_prompt content prefer_cached model w =
     (let contents = (case content of
                        None \<Rightarrow> user_prompt
                      | Some content_str \<Rightarrow>
                          user_prompt @ ''\<newline>\<newline>--- Additional Context ---\<newline>'' @ content_str);
          (resp, x') = generate_content env model contents system_prompt (service w);
          w1 = w\<lparr>requests := requests w @ [(model, contents, system_prompt)], service := x'\<rparr>
      in case resp of
           Failure status msg \<Rightarrow> (Inl (status, msg), w1)
         | Reply txt cand \<Rightarrow>
             (let text = (if txt = [] then (case cand of None \<Rightarrow> [] | Some t \<Rightarrow> t) else txt);
                  code_out = extract_code text
              in if strip code_out = [] then (Inl (None, ''Empty code block returned.''), w1)
                 else if prefer_cached
                 then (Inr code_out,
                       w1\<lparr>cache := (cache w1)(prompt_key env system_prompt user_prompt \<mapsto> code_out)\<rparr>)
                 else (Inr code_out, w1)))"

definition str_status :: "int option \<Rightarrow> string" where
  "str_status status = (case status of None \<Rightarrow> ''None'' | Some n \<Rightarrow> str_int n)"

definition fmt_last_err :: "string \<Rightarrow> int \<Rightarrow> int \<Rightarrow> int option \<Rightarrow> string \<Rightarrow> string" where
  "fmt_last_err model i model_attempts status msg =
     ''(model='' @ model @ '') attempt '' @ str_int i @ ''/'' @ str_int model_attempts @
     '': '' @ str_status status @ '' '' @ msg"

text \<open>
  The inner loop \<open>for i in range(1, model_attempts + 1)\<close>, over the list of the values
  of \<open>i\<close> still to come. It returns the code when an attempt succeeds, and \<open>None\<close>
  when the loop ends or is left by \<open>break\<close>, together with \<open>last_err\<close>.
\<close>

fun model_loop ::
  "'x genv \<Rightarrow> string \<Rightarrow> string \<Rightarrow> string option \<Rightarrow> bool \<Rightarrow> string \<Rightarrow> int \<Rightarrow> int list
     \<Rightarrow> string option \<Rightarrow> 'x gstate \<Rightarrow> string option \<times> string option \<times> 'x gstate" where
  "model_loop env sp up content prefer_cached model model_attempts [] last_err w =
     (None, last_err, w)"
| "model_loop env sp up content prefer_cached model model_attempts (i # rest) last_err w =
     (case attempt env sp up content prefer_cached model w of
        (Inr code_out, w') \<Rightarrow> (Some code_out, last_err, w')
      | (Inl (status, msg), w') \<Rightarrow>
          (let last_err' = Some (fmt_last_err model i model_attempts status msg)
           in if i < model_attempts \<and> should_retry status msg
              then model_loop env sp up content prefer_cached model model_attempts rest last_err' w'
              else (None, last_err', w')))"

text \<open>The outer loop \<open>for model in MODEL_CHAIN\<close>, with \<open>attempts_left\<close>.\<close>

fun chain_loop ::
  "'x genv \<Rightarrow> string \<Rightarrow> string \<Rightarrow> string option \<Rightarrow> bool \<Rightarrow> int \<Rightarrow> string list \<Rightarrow> int
     \<Rightarrow> string option \<Rightarrow> 'x gstate \<Rightarrow> string option \<times> string option \<times> 'x gstate" where
  "chain_loop env sp up content prefer_cached per_model_attempts [] attempts_left last_err w =
     (None, last_err, w)"
| "chain_loop env sp up content prefer_cached per_model_attempts (model # models) attempts_left
       last_err w =
     (let model_attempts = min per_model_attempts attempts_left
      in if model_attempts \<le> 0 then (None, last_err, w)
         else (case model_loop env sp up content prefer_cached model model_attempts
                      [1..model_attempts] last_err w of
                 (Some code_out, le, w') \<Rightarrow> (Some code_out, le, w')
               | (None, le, w') \<Rightarrow>
                   (if attempts_left - model_attempts \<le> 0 then (None, le, w')
                    else chain_loop env sp up content prefer_cached per_model_attempts models
                           (attempts_left - model_attempts) le w')))"

definition gemini_call_for_code ::
  "'x genv \<Rightarrow> string \<Rightarrow> string \<Rightarrow> string option \<Rightarrow> int \<Rightarrow> int \<Rightarrow> bool \<Rightarrow> 'x gstate
     \<Rightarrow> (exn + string) \<times> 'x gstate" where
  "gemini_call_for_code env system_prompt user_prompt content total_attempts per_model_attempts
       prefer_cached w =
     (let key = prompt_key env system_prompt user_prompt;
          cached = (if prefer_cached then cache w key else None)
      in if cached \<noteq> None \<and> cached \<noteq> Some []
         then (Inr (the cached), w)
         else (case chain_loop env system_prompt user_prompt content prefer_cached
                      per_model_attempts (MODEL_CHAIN env) total_attempts None w of
                 (Some code_out, le, w') \<Rightarrow> (Inr code_out, w')
               | (None, le, w') \<Rightarrow>
                   (case cache w' key of
                      Some c \<Rightarrow> (Inr c, w')
                    | None \<Rightarrow>
                        (Inl (RuntimeError (''Gemini API call failed: '' @
                                (case le of None \<Rightarrow> ''no further details''
                                 | Some e \<Rightarrow> if e = [] then ''no further details'' else e))),
                         w'))))"



subsection \<open>Services for examples\<close>

text \<open>A service that refuses every request, one that answers every request with the
  same fenced block, and one that refuses its first six requests and answers from the
  seventh on; its state counts the requests. The digest is stood in for by the identity.
  The caches are empty, or hold code or the empty string under the key of the prompts
  \<open>S\<close> and \<open>U\<close>.\<close>

definition env_down :: "unit genv" where
  "env_down = \<lparr>MODEL_CHAIN = [''gemini-2.5-pro'', ''gemini-2.5-flash''],
               sha256_hexdigest = (\<lambda>s. s),
               generate_content = (\<lambda>model contents sp x. (Failure (Some 503) ''unavailable'', x))\<rparr>"



definition w_blank :: "unit gstate" where
  "w_blank = \<lparr>cache = [''S\<newline>---\<newline>U'' \<mapsto> []], requests = [], service = ()\<rparr>"

definition env_flaky :: "nat genv" where
  "env_flaky = \<lparr>MODEL_CHAIN = [''gemini-2.5-pro'', ''gemini-2.5-flash''],
                 sha256_hexdigest = (\<lambda>s. s),
                 generate_content =
                   (\<lambda>model contents sp x.
                      (if x < 6 then Failure (Some 503) ''unavailable''
                       else Reply ''```python\<newline>print(2)\<newline>```'' None, Suc x))\<rparr>"

definition w_flaky :: "nat gstate" where
  "w_flaky = \<lparr>cache = [''S\<newline>---\<newline>U'' \<mapsto> ''print(1)''], requests = [], service = 0\<rparr>"

definition w_fresh :: "nat gstate" where
  "w_fresh = \<lparr>cache = Map.empty, requests = [], service = 0\<rparr>"


section \<open>Library functions used by the orchestrator\<close>

subsection \<open>\<open>json.loads\<close>: what the decoder does with a text\<close>

text \<open>
  A model of the standard decoder as \<open>json.loads(s)\<close> runs it (strict, no hooks): it
  reads the text character by character with a stack of the open containers. It takes
  one value with white space (space, tab, line feed, carriage return) around it:
  objects, arrays, strings without raw control characters and with the escapes
  \<open>\" \\ \/ \b \f \n \r \t \uXXXX\<close>, numbers, \<open>true\<close>, \<open>false\<close>, \<open>null\<close>, and
  the three names \<open>NaN\<close>, \<open>Infinity\<close>, \<open>-Infinity\<close> that the Python decoder takes
  as well. A number stops at the first character that cannot extend it, and that
  character is then read as what follows a value.

  The call has three outcomes: a value, a \<open>JSONDecodeError\<close>, or another exception.
  The decoder converts a number without fraction and exponent with \<open>int\<close> as soon as
  it has read it, and \<open>int\<close> raises \<open>ValueError\<close> on more digits than the
  interpreter's limit (\<open>sys.get_int_max_str_digits()\<close>, 4300 unless changed, 0 for no
  limit; up to 640 digits are never checked); opening a container deeper than the
  interpreter's recursion limit leaves room for raises \<open>RecursionError\<close>. Both limits
  are parameters. What is met first in the text decides the outcome.
\<close>

datatype ctx = InArray | InObject

datatype jstate =
  Val bool
  | Key bool
  | Colon
  | After
  | Str bool
  | Esc bool
  | Hex bool nat
  | Minus
  | Zero
  | IntDigits nat
  | Dot nat
  | Frac
  | Exp "nat option"
  | ExpSign "nat option"
  | ExpDigits
  | Lit string
  | Bad
  | TooLong nat
  | TooDeep ctx

datatype decoded = Value | DecodeError | Raises exn

definition json_ws :: "char \<Rightarrow> bool" where
  "json_ws c = (c = CHR '' '' \<or> c = CHR 0x09 \<or> c = CHR 0x0A \<or> c = CHR 0x0D)"

definition is_digit :: "char \<Rightarrow> bool" where
  "is_digit c = (let n = (of_char c :: nat) in 48 \<le> n \<and> n \<le> 57)"

definition is_hex :: "char \<Rightarrow> bool" where
  "is_hex c = (let n = (of_char c :: nat) in
     (48 \<le> n \<and> n \<le> 57) \<or> (65 \<le> n \<and> n \<le> 70) \<or> (97 \<le> n \<and> n \<le> 102))"

text \<open>An integer of \<open>n\<close> digits is too long for the limit.\<close>

definition too_long :: "nat \<Rightarrow> nat \<Rightarrow> bool" where
  "too_long limit n = (640 < n \<and> limit \<noteq> 0 \<and> limit < n)"

text \<open>What may follow a complete value: white space, a comma or the bracket that closes
  the innermost open container.\<close>

definition after_value :: "ctx list \<Rightarrow> char \<Rightarrow> jstate \<times> ctx list" where
  "after_value stack c =
     (if json_ws c then (After, stack)
      else (case stack of
              [] \<Rightarrow> (Bad, stack)
            | InArray # st \<Rightarrow>
                (if c = CHR '','' then (Val False, stack)
                 else if c = CHR '']'' then (After, st) else (Bad, stack))
            | InObject # st \<Rightarrow>
                (if c = CHR '','' then (Key False, stack)
                 else if c = CHR ''}'' then (After, st) else (Bad, stack))))"

text \<open>The integer read so far, of \<open>n\<close> digits, is complete: it is converted, and only
  then is the next character looked at.\<close>

definition after_int :: "nat \<Rightarrow> nat \<Rightarrow> jstate \<times> ctx list \<Rightarrow> jstate \<times> ctx list" where
  "after_int limit n next = (if too_long limit n then (TooLong n, snd next) else next)"

definition value_start :: "nat \<Rightarrow> bool \<Rightarrow> ctx list \<Rightarrow> char \<Rightarrow> jstate \<times> ctx list" where
  "value_start room may_close stack c =
     (if json_ws c then (Val may_close, stack)
      else if c = CHR 0x22 then (Str False, stack)
      else if c = CHR ''{'' then
        (if room \<le> length stack then (TooDeep InObject, stack)
         else (Key True, InObject # stack))
      else if c = CHR ''['' then
        (if room \<le> length stack then (TooDeep InArray, stack)
         else (Val True, InArray # stack))
      else if c = CHR '']'' \<and> may_close then (After, tl stack)
      else if c = CHR ''-'' then (Minus, stack)
      else if c = CHR ''0'' then (Zero, stack)
      else if is_digit c then (IntDigits 1, stack)
      else if c = CHR ''n'' then (Lit ''ull'', stack)
      else if c = CHR ''t'' then (Lit ''rue'', stack)
      else if c = CHR ''f'' then (Lit ''alse'', stack)
      else if c = CHR ''N'' then (Lit ''aN'', stack)
      else if c = CHR ''I'' then (Lit ''nfinity'', stack)
      else (Bad, stack))"

fun jstep :: "nat \<Rightarrow> nat \<Rightarrow> jstate \<times> ctx list \<Rightarrow> char \<Rightarrow> jstate \<times> ctx list" where
  "jstep limit room (Val may_close, stack) c = value_start room may_close stack c"
| "jstep limit room (Key may_close, stack) c =
     (if json_ws c then (Key may_close, stack)
      else if c = CHR 0x22 then (Str True, stack)
      else if c = CHR ''}'' \<and> may_close then (After, tl stack)
      else (Bad, stack))"
| "jstep limit room (Colon, stack) c =
     (if json_ws c then (Colon, stack)
      else if c = CHR '':'' then (Val False, stack) else (Bad, stack))"
| "jstep limit room (After, stack) c = after_value stack c"
| "jstep limit room (Str k, stack) c =
     (if c = CHR 0x22 then (if k then Colon else After, stack)
      else if c = CHR 0x5C then (Esc k, stack)
      else if (of_char c :: nat) < 32 then (Bad, stack)
      else (Str k, stack))"
| "jstep limit room (Esc k, stack) c =
     (if c = CHR ''u'' then (Hex k 4, stack)
      else if c \<in> set [CHR 0x22, CHR 0x5C, CHR ''/'', CHR ''b'', CHR ''f'', CHR ''n'', CHR ''r'',
                         CHR ''t'']
      then (Str k, stack) else (Bad, stack))"
| "jstep limit room (Hex k n, stack) c =
     (if is_hex c then (if n \<le> 1 then Str k else Hex k (n - 1), stack) else (Bad, stack))"
| "jstep limit room (Minus, stack) c =
     (if c = CHR ''0'' then (Zero, stack)
      else if is_digit c then (IntDigits 1, stack)
      else if c = CHR ''I'' then (Lit ''nfinity'', stack)
      else (Bad, stack))"
| "jstep limit room (Zero, stack) c =
     (if c = CHR ''.'' then (Dot 1, stack)
      else if c = CHR ''e'' \<or> c = CHR ''E'' then (Exp (Some 1), stack)
      else after_int limit 1 (after_value stack c))"
| "jstep limit room (IntDigits n, stack) c =
     (if is_digit c then (IntDigits (Suc n), stack)
      else if c = CHR ''.'' then (Dot n, stack)
      else if c = CHR ''e'' \<or> c = CHR ''E'' then (Exp (Some n), stack)
      else after_int limit n (after_value stack c))"
| "jstep limit room (Dot n, stack) c =
     (if is_digit c then (Frac, stack) else after_int limit n (Bad, stack))"
| "jstep limit room (Frac, stack) c =
     (if is_digit c then (Frac, stack)
      else if c = CHR ''e'' \<or> c = CHR ''E'' then (Exp None, stack)
      else after_value stack c)"
| "jstep limit room (Exp pending, stack) c =
     (if c = CHR ''+'' \<or> c = CHR ''-'' then (ExpSign pending, stack)
      else if is_digit c then (ExpDigits, stack)
      else (case pending of None \<Rightarrow> (Bad, stack) | Some n \<Rightarrow> after_int limit n (Bad, stack)))"
| "jstep limit room (ExpSign pending, stack) c =
     (if is_digit c then (ExpDigits, stack)
      else (case pending of None \<Rightarrow> (Bad, stack) | Some n \<Rightarrow> after_int limit n (Bad, stack)))"
| "jstep limit room (ExpDigits, stack) c =
     (if is_digit c then (ExpDigits, stack) else after_value stack c)"
| "jstep limit room (Lit [], stack) c = (Bad, stack)"
| "jstep limit room (Lit (x # xs), stack) c =
     (if c = x then (if xs = [] then After else Lit xs, stack) else (Bad, stack))"
| "jstep limit room (Bad, stack) c = (Bad, stack)"
| "jstep limit room (TooLong n, stack) c = (TooLong n, stack)"
| "jstep limit room (TooDeep k, stack) c = (TooDeep k, stack)"

text \<open>The outcome once the text is used up. An integer still being read is converted
  first; a value is returned when no container is left open.\<close>

definition int_error :: "nat \<Rightarrow> nat \<Rightarrow> exn" where
  "int_error limit n =
     ValueError (''Exceeds the limit ('' @ str_nat limit @
                 '' digits) for integer string conversion: value has '' @ str_nat n @
                 '' digits; use sys.set_int_max_str_digits() to increase the limit'')"

definition depth_error :: "ctx \<Rightarrow> exn" where
  "depth_error k =
     RecursionError (''maximum recursion depth exceeded while decoding a JSON '' @
                     (case k of InArray \<Rightarrow> ''array'' | InObject \<Rightarrow> ''object'') @
                     '' from a unicode string'')"

definition at_end :: "nat \<Rightarrow> jstate \<times> ctx list \<Rightarrow> decoded" where
  "at_end limit final =
     (let complete = (if snd final = [] then Value else DecodeError);
          pending = (\<lambda>n after. if too_long limit n then Raises (int_error limit n) else after)
      in case fst final of
           After \<Rightarrow> complete
         | Frac \<Rightarrow> complete
         | ExpDigits \<Rightarrow> complete
         | Zero \<Rightarrow> pending 1 complete
         | IntDigits n \<Rightarrow> pending n complete
         | Dot n \<Rightarrow> pending n DecodeError
         | Exp (Some n) \<Rightarrow> pending n DecodeError
         | ExpSign (Some n) \<Rightarrow> pending n DecodeError
         | TooLong n \<Rightarrow> Raises (int_error limit n)
         | TooDeep k \<Rightarrow> Raises (depth_error k)
         | _ \<Rightarrow> DecodeError)"

definition json_loads :: "nat \<Rightarrow> nat \<Rightarrow> string \<Rightarrow> decoded" where
  "json_loads limit room s = at_end limit (foldl (jstep limit room) (Val False, []) s)"

subsection \<open>\<open>repr\<close> of a string and \<open>str\<close> of a tuple of strings\<close>

definition hex_digit :: "nat \<Rightarrow> char" where
  "hex_digit d = (if d < 10 then char_of (48 + d) else char_of (87 + d))"

definition printable :: "char \<Rightarrow> bool" where
  "printable c = (let n = (of_char c :: nat) in
     32 \<le> n \<and> n \<noteq> 127 \<and> \<not> (128 \<le> n \<and> n \<le> 160) \<and> n \<noteq> 173)"

definition repr_char :: "char \<Rightarrow> char \<Rightarrow> string" where
  "repr_char quote c =
     (if c = quote \<or> c = CHR 0x5C then [CHR 0x5C, c]
      else if c = CHR 0x09 then [CHR 0x5C, CHR ''t'']
      else if c = CHR 0x0A then [CHR 0x5C, CHR ''n'']
      else if c = CHR 0x0D then [CHR 0x5C, CHR ''r'']
      else if printable c then [c]
      else [CHR 0x5C, CHR ''x'', hex_digit (of_char c div 16), hex_digit (of_char c mod 16)])"

definition repr_str :: "string \<Rightarrow> string" where
  "repr_str s =
     (let quote = (if CHR 0x27 \<in> set s \<and> CHR 0x22 \<notin> set s then CHR 0x22 else CHR 0x27)
      in [quote] @ concat (map (repr_char quote) s) @ [quote])"

text \<open>A tuple of strings is the list of its components.\<close>

definition str_tuple :: "string list \<Rightarrow> string" where
  "str_tuple xs =
     (case xs of
        [x] \<Rightarrow> ''('' @ repr_str x @ '',)''
      | _ \<Rightarrow> ''('' @ join '', '' (map repr_str xs) @ '')'')"

subsection \<open>\<open>subprocess.run\<close>\<close>

text \<open>
  What the child process does when left alone: it exits after some seconds with a return
  code and its two decoded streams, or it never exits, or the call breaks with an
  exception before it can hand back a result (the interpreter cannot be started, a stream
  cannot be decoded). \<open>subprocess_run\<close> is the library call with its optional
  \<open>timeout\<close> argument: without one it waits for the child, so on a child that never
  exits it does not return (\<open>None\<close>); with one it raises \<open>TimeoutExpired\<close> once the
  limit has passed.
\<close>

datatype child =
  Exits nat int string string
  | Loops
  | Breaks exn

definition subprocess_run :: "child \<Rightarrow> nat option \<Rightarrow> (exn + int \<times> string \<times> string) option" where
  "subprocess_run ch timeout =
     (case ch of
        Breaks e \<Rightarrow> Some (Inl e)
      | Loops \<Rightarrow> (case timeout of None \<Rightarrow> None | Some t \<Rightarrow> Some (Inl TimeoutExpired))
      | Exits d rc out err \<Rightarrow>
          (case timeout of
             None \<Rightarrow> Some (Inr (rc, out, err))
           | Some t \<Rightarrow> if t < d then Some (Inl TimeoutExpired) else Some (Inr (rc, out, err))))"

text \<open>\<open>os.remove\<close> on the files that exist: a missing file raises
  \<open>FileNotFoundError\<close>, an \<open>OSError\<close>; a file that is there is removed when the
  system permits it, and otherwise an \<open>OSError\<close> is raised and the file stays.\<close>

definition os_remove :: "bool \<Rightarrow> string \<Rightarrow> (string \<rightharpoonup> string) \<Rightarrow> exn + (string \<rightharpoonup> string)" where
  "os_remove permitted path fs =
     (if path \<notin> dom fs then Inl (OSError ''No such file or directory'')
      else if permitted then Inr (fs(path := None))
      else Inl (OSError ''Permission denied''))"

section \<open>Sandboxed execution and validation\<close>

text \<open>
  The world of \<open>plan_execution.py\<close>: the files that exist, with their contents; the
  record of what the run did to its collaborators (each backend call with its two
  prompts, its auxiliary content and what came back, each script started, and each
  verdict \<open>(ok, output, error)\<close> returned on a script); and the state of everything
  outside the program, which only the collaborators read and change.
\<close>

datatype backend = Claude | OpenAI | Gemini

datatype event =
  Called backend string string "string option" "exn + string"
  | Ran string
  | Validated bool string "string option"

record 'x world =
  files :: "string \<rightharpoonup> string"
  trace :: "event list"
  outside :: 'x

text \<open>
  The collaborators. \<open>PromptManager\<close> is not part of the sources at hand: its two
  methods are parameters, and so are the two renderings of the opaque plan,
  \<open>json.dumps(plan)\<close> and \<open>str(plan)\<close>. The three backend calls return code or
  raise; \<open>python\<close> is what the interpreter does with the script file at a path:
  how the child behaves and what it leaves of the files and of the outside.
  \<open>mkstemp\<close> is the name that \<open>NamedTemporaryFile\<close> picks, \<open>time_ms\<close> is
  \<open>int(time.time()*1000)\<close>, and \<open>json_error_text\<close> is the text of the
  \<open>JSONDecodeError\<close> that the decoder raises on a text it rejects.
  \<open>int_max_str_digits\<close> and \<open>recursion_room\<close> are the two limits of the
  interpreter that runs the orchestrator, and \<open>removable\<close> says whether the system
  lets a file be removed. File writes, the prompt manager and the rendering of the
  plan are taken to succeed. Console output is not modelled.
\<close>

record ('p, 'f, 'x) env =
  execute_s3 :: "'p \<Rightarrow> string \<Rightarrow> 'f \<Rightarrow> string \<times> string"
  execute_entire_plan_v2 :: "'p \<Rightarrow> string \<Rightarrow> 'f \<Rightarrow> string \<times> string"
  json_dumps :: "'p \<Rightarrow> string"
  str_plan :: "'p \<Rightarrow> string"
  claude_call_for_code :: "string \<Rightarrow> string \<Rightarrow> string option \<Rightarrow> 'x \<Rightarrow> (exn + string) \<times> 'x"
  openai_call_for_code_responses ::
    "string \<Rightarrow> string \<Rightarrow> string option \<Rightarrow> 'x \<Rightarrow> (exn + string) \<times> 'x"
  gemini_llm_call_for_code :: "string \<Rightarrow> string \<Rightarrow> string option \<Rightarrow> 'x \<Rightarrow> (exn + string) \<times> 'x"
  python :: "string \<Rightarrow> (string \<rightharpoonup> string) \<Rightarrow> 'x \<Rightarrow> child \<times> (string \<rightharpoonup> string) \<times> 'x"
  mkstemp :: "(string \<rightharpoonup> string) \<Rightarrow> 'x \<Rightarrow> string"
  time_ms :: "'x \<Rightarrow> nat"
  json_error_text :: "string \<Rightarrow> string"
  int_max_str_digits :: nat
  recursion_room :: nat
  removable :: "string \<Rightarrow> (string \<rightharpoonup> string) \<Rightarrow> 'x \<Rightarrow> bool"

text \<open>
  Lines 156 to 168 of \<open>_run_and_validate_json\<close>, the validation of a finished child:
  both streams are stripped first; the result is the triple \<open>(ok, output, error)\<close>,
  or the exception of the decoder that the handler for \<open>JSONDecodeError\<close> does not
  catch.
\<close>

definition validate ::
  "('p, 'f, 'x) env \<Rightarrow> int \<Rightarrow> string \<Rightarrow> string \<Rightarrow> exn + bool \<times> string \<times> string option"
  where
  "validate env returncode proc_stdout proc_stderr =
     (let stdout = strip proc_stdout; stderr = strip proc_stderr
      in if returncode \<noteq> 0
         then Inr (False, stdout,
                   Some (if stderr \<noteq> [] then stderr
                         else ''Script exited with non-zero status.''))
         else (case json_loads (int_max_str_digits env) (recursion_room env) stdout of
                 Value \<Rightarrow> Inr (True, stdout, None)
               | DecodeError \<Rightarrow>
                   Inr (False, stdout,
                        Some (''Invalid JSON output: '' @ json_error_text env stdout @
                              ''\<newline>STDOUT:\<newline>'' @ stdout @ ''\<newline>STDERR:\<newline>'' @ stderr))
               | Raises e \<Rightarrow> Inl e))"

text \<open>
  \<open>_run_and_validate_json\<close>. The result is \<open>None\<close> when the call does not return,
  and otherwise what it returns or raises together with the world it leaves. The call of
  \<open>subprocess.run\<close> passes no \<open>timeout\<close>, so \<open>timeout_sec\<close> goes unused; the
  handler for \<open>TimeoutExpired\<close> reads \<open>stdout\<close>, which is unbound when
  \<open>subprocess.run\<close> raises. The \<open>finally\<close> clause calls \<open>os.remove\<close> on the
  script on every way out of the \<open>try\<close>, ignoring an \<open>OSError\<close>.
\<close>

definition run_and_validate_json ::
  "('p, 'f, 'x) env \<Rightarrow> string \<Rightarrow> nat \<Rightarrow> 'x world
     \<Rightarrow> ((exn + bool \<times> string \<times> string option) \<times> 'x world) option" where
  "run_and_validate_json env code timeout_sec w =
     (let code_path = mkstemp env (files w) (outside w);
          w1 = w\<lparr>files := (files w)(code_path \<mapsto> code), trace := trace w @ [Ran code]\<rparr>;
          (ch, fs, x) = python env code_path (files w1) (outside w1)
      in case subprocess_run ch None of
           None \<Rightarrow> None
         | Some r \<Rightarrow>
             (let result = (case r of
                              Inr (returncode, out, err) \<Rightarrow> validate env returncode out err
                            | Inl TimeoutExpired \<Rightarrow> Inl (UnboundLocalError ''stdout'')
                            | Inl e \<Rightarrow> Inl e);
                  fs' = (case os_remove (removable env code_path fs x) code_path fs of
                           Inr fs' \<Rightarrow> fs'
                         | Inl e \<Rightarrow> fs);
                  verdict = (case result of
                               Inr (ok, output, error) \<Rightarrow> [Validated ok output error]
                             | Inl e \<Rightarrow> [])
              in Some (result, w1\<lparr>files := fs', trace := trace w1 @ verdict, outside := x\<rparr>)))"


section \<open>Provider chain and repair loop\<close>

text \<open>One backend call inside its \<open>try\<close>, entered into the trace.\<close>

definition backend_call ::
  "('p, 'f, 'x) env \<Rightarrow> backend \<Rightarrow> string \<Rightarrow> string \<Rightarrow> string option \<Rightarrow> 'x \<Rightarrow> (exn + string) \<times> 'x"
  where
  "backend_call env b =
     (case b of
        Claude \<Rightarrow> claude_call_for_code env
      | OpenAI \<Rightarrow> openai_call_for_code_responses env
      | Gemini \<Rightarrow> gemini_llm_call_for_code env)"

definition invoke ::
  "('p, 'f, 'x) env \<Rightarrow> backend \<Rightarrow> string \<Rightarrow> string \<Rightarrow> string option \<Rightarrow> 'x world
     \<Rightarrow> (exn + string) \<times> 'x world" where
  "invoke env b system_prompt user_prompt content w =
     (let (r, x) = backend_call env b system_prompt user_prompt content (outside w)
      in (r, w\<lparr>trace := trace w @ [Called b system_prompt user_prompt content r], outside := x\<rparr>))"

text \<open>
  The variable \<open>code\<close> holds a string or \<open>None\<close>; \<open>not code\<close> is true for
  \<open>None\<close> and for the empty string. After a call, \<open>code\<close> is the returned string,
  or \<open>None\<close> when the call raised.
\<close>

definition falsy :: "string option \<Rightarrow> bool" where
  "falsy code = (code = None \<or> code = Some [])"

definition code_of :: "exn + string \<Rightarrow> string option" where
  "code_of r = (case r of Inl e \<Rightarrow> None | Inr c \<Rightarrow> Some c)"

text \<open>
  The chain Claude, OpenAI, Gemini. The source writes it out twice, once for the first
  generation and once inside the repair loop, with the same calls and tests; the two
  copies differ only in what follows when the Gemini call raises, so the chain returns
  either the code to run or, for that case, the value \<open>code\<close> is left with.
\<close>

datatype generated = Code string | Exhausted "string option"

definition provider_chain ::
  "('p, 'f, 'x) env \<Rightarrow> string \<Rightarrow> string \<Rightarrow> string option \<Rightarrow> 'x world \<Rightarrow> generated \<times> 'x world"
  where
  "provider_chain env system_prompt user_prompt content w =
     (let (r1, w1) = invoke env Claude system_prompt user_prompt content w
      in if \<not> falsy (code_of r1) then (Code (the (code_of r1)), w1)
         else (let (r2, w2) = invoke env OpenAI system_prompt user_prompt content w1
               in if \<not> falsy (code_of r2) then (Code (the (code_of r2)), w2)
                  else (let (r3, w3) = invoke env Gemini system_prompt user_prompt content w2
                        in case r3 of
                             Inr c \<Rightarrow> (Code c, w3)
                           | Inl e \<Rightarrow> (Exhausted (code_of r2), w3))))"

definition s3_present :: "('p, 'f, 'x) env \<Rightarrow> 'p \<Rightarrow> string \<Rightarrow> bool" where
  "s3_present env plan questions =
     (contains ''s3://'' (lower questions) \<or> contains ''s3://'' (lower (json_dumps env plan)))"

definition base_prompts :: "('p, 'f, 'x) env \<Rightarrow> 'p \<Rightarrow> string \<Rightarrow> 'f \<Rightarrow> string \<times> string" where
  "base_prompts env plan questions data_files =
     (if s3_present env plan questions then execute_s3 env plan questions data_files
      else execute_entire_plan_v2 env plan questions data_files)"

text \<open>The two prompts of the first generation: the system prompt of the prompt manager
  with the reminder appended, and its user prompt.\<close>

definition first_prompts :: "('p, 'f, 'x) env \<Rightarrow> 'p \<Rightarrow> string \<Rightarrow> 'f \<Rightarrow> string \<times> string" where
  "first_prompts env plan questions data_files =
     (let (system_prompt, user_prompt) = base_prompts env plan questions data_files
      in (system_prompt @ ''\<newline>IMPORTANT: Final output must be valid JSON only. '' @
            ''Always do: import json; print(json.dumps(result, ensure_ascii=False, indent=2)) '' @
            ''at the end of the script. No other prints.'',
          user_prompt))"

definition str_opt :: "string option \<Rightarrow> string" where
  "str_opt v = (case v of None \<Rightarrow> ''None'' | Some s \<Rightarrow> s)"

text \<open>
  \<open>_build_repair_prompt\<close>. Its \<open>system_prompt\<close> argument is overwritten before it
  is read and is left out here. The parenthesised expression that builds the user prompt
  ends in a comma, so the second component of the result is a tuple with one string.
\<close>

definition build_repair_prompt ::
  "('p, 'f, 'x) env \<Rightarrow> 'p \<Rightarrow> string \<Rightarrow> 'f \<Rightarrow> string option \<Rightarrow> string option
     \<Rightarrow> string \<times> string list" where
  "build_repair_prompt env plan questions data_files prev_code error =
     (let (system_prompt, base_user_prompt) = base_prompts env plan questions data_files;
          repair_system_prompt = strip system_prompt @
            ''\<newline>\<newline>IMPORTANT: Always print json.dumps(result).\<newline>'' @
            ''- Never create dummy data for any type of source , '' @
            ''try sourcing again if not executed the first time'';
          repair_user_prompt =
            [base_user_prompt @ ''\<newline>\<newline>'' @
             ''Your previous code failed.\<newline>'' @
             ''If you the answers are correct only the json formatting is incorrect '' @
             ''then take those answers and format it as json as required in the questions'' @
             ''----- PREVIOUS CODE -----\<newline>'' @
             str_opt prev_code @ ''\<newline>'' @
             ''----- ERROR / OUTPUT -----\<newline>'' @
             str_opt error @ ''\<newline>'' @
             ''----- PLAN -----\<newline>'' @
             str_plan env plan @ ''\<newline>'' @
             ''Please fix the issues and return only working Python code. '' @
             ''Ensure the script ends with:\<newline>'' @
             ''import json\<newline>print(json.dumps(result))'' @
             ''Ensure that you do not create a dummy data'']
      in (repair_system_prompt, repair_user_prompt))"

text \<open>What \<open>execute_plan_v1\<close> returns: the dictionary with the key \<open>error\<close>, a
  string (the output or the last error), or \<open>None\<close>.\<close>

datatype retval = ErrorDict string | Text string | PyNone

definition ret_opt :: "string option \<Rightarrow> retval" where
  "ret_opt v = (case v of None \<Rightarrow> PyNone | Some s \<Rightarrow> Text s)"

definition write_file :: "string \<Rightarrow> string \<Rightarrow> 'x world \<Rightarrow> 'x world" where
  "write_file path content w = w\<lparr>files := (files w)(path \<mapsto> content)\<rparr>"

definition stamped :: "('p, 'f, 'x) env \<Rightarrow> string \<Rightarrow> string \<Rightarrow> 'x world \<Rightarrow> string" where
  "stamped env pre suf w = ''generated_code/'' @ pre @ str_nat (time_ms env (outside w)) @ suf"

definition run_report :: "bool \<Rightarrow> string \<Rightarrow> string option \<Rightarrow> string" where
  "run_report ok output error =
     ''ok='' @ (if ok then ''True'' else ''False'') @ ''\<newline>'' @ output @ ''\<newline>'' @
     (case error of None \<Rightarrow> [] | Some e \<Rightarrow> e) @ ''\<newline>''"

text \<open>
  The retry loop \<open>for attempt in range(max_retries)\<close>, by the number of rounds still to
  run, with the variables \<open>code\<close> and \<open>error\<close> as they stand at the head of the
  round. The result is \<open>None\<close> when a script never exits, and otherwise the returned
  value or the exception that leaves \<open>execute_plan_v1\<close>, with the world.
\<close>

fun retry_loop ::
  "('p, 'f, 'x) env \<Rightarrow> 'p \<Rightarrow> string \<Rightarrow> 'f \<Rightarrow> nat \<Rightarrow> nat \<Rightarrow> string option \<Rightarrow> string option
     \<Rightarrow> 'x world \<Rightarrow> ((exn + retval) \<times> 'x world) option" where
  "retry_loop env plan questions data_files timeout_for_execution 0 code error w =
     Some (Inr (ret_opt error), w)"
| "retry_loop env plan questions data_files timeout_for_execution (Suc n) code error w =
     (let (sys_repair_prompt, user_repair_prompt) =
            build_repair_prompt env plan questions data_files code error
      in case provider_chain env sys_repair_prompt (str_tuple user_repair_prompt)
                (Some questions) w of
           (Exhausted code', w1) \<Rightarrow>
             retry_loop env plan questions data_files timeout_for_execution n code' error w1
         | (Code code', w1) \<Rightarrow>
             (let w2 = write_file ''temp.py'' code' w1;
                  w3 = write_file (stamped env ''retry_'' ''.py'' w2) code' w2
              in case run_and_validate_json env code' timeout_for_execution w3 of
                   None \<Rightarrow> None
                 | Some (Inl e, w4) \<Rightarrow> Some (Inl e, w4)
                 | Some (Inr (ok, output, error'), w4) \<Rightarrow>
                     (let w5 = write_file (stamped env ''retry_result_'' ''.txt'' w4)
                                 (run_report ok output error') w4
                      in if ok then Some (Inr (Text output), w5)
                         else retry_loop env plan questions data_files timeout_for_execution n
                                (Some code') error' w5)))"

definition execute_plan_v1 ::
  "('p, 'f, 'x) env \<Rightarrow> 'p \<Rightarrow> string \<Rightarrow> 'f \<Rightarrow> nat \<Rightarrow> int \<Rightarrow> 'x world
     \<Rightarrow> ((exn + retval) \<times> 'x world) option" where
  "execute_plan_v1 env plan questions data_files timeout_for_execution max_retries w =
     (let max_retries' = (if s3_present env plan questions then 8 else max_retries);
          (system_prompt, user_prompt) = first_prompts env plan questions data_files
      in case provider_chain env system_prompt user_prompt None w of
           (Exhausted c, w1) \<Rightarrow> Some (Inr (ErrorDict ''All LLMs failed to generate code''), w1)
         | (Code code, w1) \<Rightarrow>
             (let w2 = write_file ''temp.py'' code w1;
                  w3 = write_file (stamped env ''initial_'' ''.py'' w2) code w2
              in case run_and_validate_json env code timeout_for_execution w3 of
                   None \<Rightarrow> None
                 | Some (Inl e, w4) \<Rightarrow> Some (Inl e, w4)
                 | Some (Inr (ok, output, error), w4) \<Rightarrow>
                     (let w5 = write_file (stamped env ''run_'' ''.txt'' w4)
                                 (run_report ok output error) w4
                      in if ok then Some (Inr (Text output), w5)
                         else retry_loop env plan questions data_files timeout_for_execution
                                (nat max_retries') (Some code) error w5)))"

section \<open>An example environment\<close>

text \<open>
  Two scripts and an interpreter that knows them: one prints a JSON object, one prints a
  bare word; any other script ends with a syntax error. The Claude backend answers its
  first call with the script that prints the bare word and every later call with the one
  that prints JSON; the other two backends raise. The outside state counts the backend
  calls. The plan is a string. In the second environment the interpreter, given a third
  script that loops, never exits.
\<close>

definition loop_code :: string where
  "loop_code = ''while True:\<newline>    pass''"

definition good_code :: string where
  "good_code = ''import json\<newline>print(json.dumps({\"answer\": 4}))''"

definition bad_code :: string where
  "bad_code = ''import json\<newline>print(\"hello\")''"

definition demo_python :: "string \<Rightarrow> (string \<rightharpoonup> string) \<Rightarrow> nat \<Rightarrow> child \<times> (string \<rightharpoonup> string) \<times> nat" where
  "demo_python path fs x =
     (case fs path of
        None \<Rightarrow> (Exits 1 2 [] ''can't open file'', fs, x)
      | Some c \<Rightarrow>
          if c = good_code then (Exits 1 0 ''{\"answer\": 4}\<newline>'' [], fs, x)
          else if c = bad_code then (Exits 1 0 ''hello\<newline>'' [], fs, x)
          else (Exits 1 1 [] ''SyntaxError: invalid syntax\<newline>'', fs, x))"

definition demo :: "(string, unit, nat) env" where
  "demo = \<lparr>execute_s3 = (\<lambda>plan q fl. (''S3 SYSTEM'', ''S3 USER '' @ q)),
           execute_entire_plan_v2 = (\<lambda>plan q fl. (''SYSTEM'', ''USER '' @ q)),
           json_dumps = (\<lambda>p. [CHR 0x22] @ p @ [CHR 0x22]),
           str_plan = (\<lambda>p. p),
           claude_call_for_code = (\<lambda>sp up c n. (if n = 0 then Inr bad_code else Inr good_code, Suc n)),
           openai_call_for_code_responses = (\<lambda>sp up c n. (Inl (RuntimeError ''OpenAI API call failed after 5 retries.''), Suc n)),
           gemini_llm_call_for_code = (\<lambda>sp up c n. (Inl (RuntimeError ''Gemini API call failed: no further details''), Suc n)),
           python = demo_python,
           mkstemp = (\<lambda>fs x. ''/tmp/tmp'' @ str_nat x @ ''.py''),
           time_ms = (\<lambda>x. 1000 + x),
           json_error_text = (\<lambda>s. ''Expecting value: line 1 column 1 (char 0)''),
           int_max_str_digits = 4300,
           recursion_room = 900,
           removable = (\<lambda>path fs x. True)\<rparr>"

definition demo_hang :: "(string, unit, nat) env" where
  "demo_hang = demo\<lparr>python := (\<lambda>path fs x. if fs path = Some loop_code then (Loops, fs, x)
                                               else demo_python path fs x)\<rparr>"

definition w0 :: "nat world" where
  "w0 = \<lparr>files = Map.empty, trace = [], outside = 0\<rparr>"

section \<open>Reading a run off its trace\<close>

text \<open>The verdict of the latest script in a trace, the backends called and the user
  prompts they were given, in order; the result and the trace of a run that returned;
  the scripts started, in order.\<close>

fun last_validated :: "event list \<Rightarrow> (bool \<times> string \<times> string option) option" where
  "last_validated [] = None"
| "last_validated (e # es) =
     (case last_validated es of
        Some v \<Rightarrow> Some v
      | None \<Rightarrow> (case e of Validated ok out err \<Rightarrow> Some (ok, out, err) | _ \<Rightarrow> None))"


fun called_prompts :: "event list \<Rightarrow> string list" where
  "called_prompts [] = []"
| "called_prompts (Called b sp up c r # es) = up # called_prompts es"
| "called_prompts (e # es) = called_prompts es"

fun backends_called :: "event list \<Rightarrow> backend list" where
  "backends_called [] = []"
| "backends_called (Called b sp up c r # es) = b # backends_called es"
| "backends_called (e # es) = backends_called es"


definition trace_of :: "((exn + retval) \<times> 'x world) option \<Rightarrow> event list" where
  "trace_of r = (case r of None \<Rightarrow> [] | Some (v, w) \<Rightarrow> trace w)"

fun scripts_run :: "event list \<Rightarrow> string list" where
  "scripts_run [] = []"
| "scripts_run (Ran code # es) = code # scripts_run es"
| "scripts_run (e # es) = scripts_run es"

text \<open>The error returned on the script that prints a bare word, and an environment in
  which Claude raises, OpenAI returns the empty string and Gemini returns code.\<close>

definition bad_err :: string where
  "bad_err = ''Invalid JSON output: Expecting value: line 1 column 1 (char 0)\<newline>STDOUT:\<newline>hello\<newline>STDERR:\<newline>''"

definition demo_fallback :: "(string, unit, nat) env" where
  "demo_fallback = demo\<lparr>
     claude_call_for_code := (\<lambda>sp up c n. (Inl (RuntimeError ''Claude API call failed after 3 retries.''), Suc n)),
     openai_call_for_code_responses := (\<lambda>sp up c n. (Inr [], Suc n)),
     gemini_llm_call_for_code := (\<lambda>sp up c n. (Inr good_code, Suc n))\<rparr>"

text \<open>Four more environments: one in which the system refuses to remove a file; one in
  which Claude answers every call with the script that prints the bare word; one in
  which the interpreter cannot be started; and one in which Claude answers with the
  script that loops and the interpreter never exits on it.\<close>

definition demo_locked :: "(string, unit, nat) env" where
  "demo_locked = demo\<lparr>removable := (\<lambda>path fs x. False)\<rparr>"

definition demo_bad :: "(string, unit, nat) env" where
  "demo_bad = demo\<lparr>claude_call_for_code := (\<lambda>sp up c n. (Inr bad_code, Suc n))\<rparr>"




section \<open>Properties of the Gemini Backend Adapter\<close>

lemma strip_Nil [simp]: "strip [] = []"
  by (simp add: strip_def)


lemma attempt_Inl:
  "attempt env sp up content pc model w = (Inl e, w') \<Longrightarrow> cache w' = cache w"
  by (auto simp: attempt_def Let_def split: prod.splits response.splits if_splits)


lemma model_loop_None:
  "model_loop env sp up content pc model m is le w = (None, le', w') \<Longrightarrow> cache w' = cache w"
proof (induction "is" arbitrary: le w)
  case Nil
  then show ?case by simp
next
  case (Cons i rest)
  obtain r w1 where a: "attempt env sp up content pc model w = (r, w1)"
    by (cases "attempt env sp up content pc model w")
  show ?case
  proof (cases r)
    case (Inr code)
    with Cons.prems a show ?thesis by simp
  next
    case (Inl e)
    obtain status msg where e: "e = (status, msg)" by (cases e)
    from a Inl have c: "cache w1 = cache w" by (auto dest: attempt_Inl)
    show ?thesis
    proof (cases "i < m \<and> should_retry status msg")
      case True
      with Cons.prems a Inl e
      have "model_loop env sp up content pc model m rest
              (Some (fmt_last_err model i m status msg)) w1 = (None, le', w')"
        by (simp add: Let_def)
      then have "cache w' = cache w1" by (rule Cons.IH)
      with c show ?thesis by simp
    next
      case False
      with Cons.prems a Inl e have "w' = w1" by (simp add: Let_def)
      with c show ?thesis by simp
    qed
  qed
qed

lemma chain_loop_unfold:
  "chain_loop env sp up content pc pa (model # models) al le w =
     (if min pa al \<le> 0 then (None, le, w)
      else (case model_loop env sp up content pc model (min pa al) [1..min pa al] le w of
              (Some code_out, le1, w1) \<Rightarrow> (Some code_out, le1, w1)
            | (None, le1, w1) \<Rightarrow>
                (if al - min pa al \<le> 0 then (None, le1, w1)
                 else chain_loop env sp up content pc pa models (al - min pa al) le1 w1)))"
  by (simp only: chain_loop.simps Let_def)


lemma chain_loop_None:
  "chain_loop env sp up content pc pa models al le w = (None, le', w') \<Longrightarrow> cache w' = cache w"
proof (induction models arbitrary: al le w)
  case Nil
  then show ?case by simp
next
  case (Cons model models)
  define m where "m = min pa al"
  obtain r le1 w1 where ml: "model_loop env sp up content pc model m [1..m] le w = (r, le1, w1)"
    by (cases "model_loop env sp up content pc model m [1..m] le w")
  show ?case
  proof (cases "m \<le> 0")
    case True
    with Cons.prems show ?thesis
      unfolding chain_loop_unfold m_def [symmetric] by simp
  next
    case pos: False
    show ?thesis
    proof (cases r)
      case (Some code)
      with Cons.prems ml pos show ?thesis
        unfolding chain_loop_unfold m_def [symmetric] by simp
    next
      case None
      with ml have c: "cache w1 = cache w" by (auto dest: model_loop_None)
      show ?thesis
      proof (cases "al - m \<le> 0")
        case True
        with Cons.prems ml None pos have "w' = w1"
          unfolding chain_loop_unfold m_def [symmetric] by simp
        with c show ?thesis by simp
      next
        case False
        with Cons.prems ml None pos
        have "chain_loop env sp up content pc pa models (al - m) le1 w1 = (None, le', w')"
          unfolding chain_loop_unfold m_def [symmetric] by simp
        then have "cache w' = cache w1" by (rule Cons.IH)
        with c show ?thesis by simp
      qed
    qed
  qed
qed




lemma flaky_chain:
  "fst (chain_loop env_flaky ''S'' ''U'' None False 3 (MODEL_CHAIN env_flaky) 6 None w_flaky)
     = None"
  by (simp add: env_flaky_def w_flaky_def Let_def attempt_def should_retry_def upto.simps)

lemma flaky_chain_fresh:
  "fst (chain_loop env_flaky ''S'' ''U'' None False 3 (MODEL_CHAIN env_flaky) 6 None w_fresh)
     = None"
  by (simp add: env_flaky_def w_fresh_def Let_def attempt_def should_retry_def upto.simps)

lemma blank_first:
  "gemini_call_for_code env_down ''S'' ''U'' None 6 3 True w_blank =
     (Inr [], w_blank\<lparr>requests := replicate 3 (''gemini-2.5-pro'', ''U'', ''S'') @
                                    replicate 3 (''gemini-2.5-flash'', ''U'', ''S'')\<rparr>)"
  by (simp add: gemini_call_for_code_def prompt_key_def env_down_def w_blank_def Let_def
      attempt_def should_retry_def upto.simps numeral_3_eq_3)

lemma blank_second:
  "gemini_call_for_code env_down ''S'' ''U'' None 6 3 True
     (w_blank\<lparr>requests := replicate 3 (''gemini-2.5-pro'', ''U'', ''S'') @
                            replicate 3 (''gemini-2.5-flash'', ''U'', ''S'')\<rparr>) =
     (Inr [], w_blank\<lparr>requests := replicate 3 (''gemini-2.5-pro'', ''U'', ''S'') @
                                    replicate 3 (''gemini-2.5-flash'', ''U'', ''S'') @
                                    replicate 3 (''gemini-2.5-pro'', ''U'', ''S'') @
                                    replicate 3 (''gemini-2.5-flash'', ''U'', ''S'')\<rparr>)"
  by (simp add: gemini_call_for_code_def prompt_key_def env_down_def w_blank_def Let_def
      attempt_def should_retry_def upto.simps numeral_3_eq_3)


text \<open>
  C10. When every network attempt of a call has failed, so that the loop over the models
  ends without code, the adapter ends with a look into the cache for the key of the two
  prompts: an entry there is returned, also when \<open>prefer_cached = False\<close> switched the
  first lookup off, and only without an entry does the call raise \<open>RuntimeError\<close>.
\<close>

theorem last_resort_cache:
  assumes "fst (chain_loop env sp up content pc pa (MODEL_CHAIN env) ta None w) = None"
  shows "case cache w (prompt_key env sp up) of
           Some c \<Rightarrow> fst (gemini_call_for_code env sp up content ta pa pc w) = Inr c
         | None \<Rightarrow> (\<exists>msg. fst (gemini_call_for_code env sp up content ta pa pc w)
                          = Inl (RuntimeError msg))"
proof -
  let ?key = "prompt_key env sp up"
  obtain r le w' where cl:
    "chain_loop env sp up content pc pa (MODEL_CHAIN env) ta None w = (r, le, w')"
    by (cases "chain_loop env sp up content pc pa (MODEL_CHAIN env) ta None w")
  from assms cl have r: "r = None" by simp
  with cl have same: "cache w' = cache w" by (auto dest: chain_loop_None)
  show ?thesis
  proof (cases "cache w ?key")
    case None
    with cl r same show ?thesis
      by (simp add: gemini_call_for_code_def Let_def)
  next
    case (Some c)
    with cl r same show ?thesis
      by (simp add: gemini_call_for_code_def Let_def)
  qed
qed

theorem last_resort_cache_witness:
  "fst (chain_loop env_flaky ''S'' ''U'' None False 3 (MODEL_CHAIN env_flaky) 6 None w_flaky)
     = None \<and>
   fst (gemini_call_for_code env_flaky ''S'' ''U'' None 6 3 False w_flaky) = Inr ''print(1)'' \<and>
   fst (chain_loop env_flaky ''S'' ''U'' None False 3 (MODEL_CHAIN env_flaky) 6 None w_fresh)
     = None \<and>
   (\<exists>msg. fst (gemini_call_for_code env_flaky ''S'' ''U'' None 6 3 False w_fresh)
            = Inl (RuntimeError msg))"
proof -
  have k: "cache w_flaky (prompt_key env_flaky ''S'' ''U'') = Some ''print(1)''"
    by (simp add: prompt_key_def env_flaky_def w_flaky_def)
  have k': "cache w_fresh (prompt_key env_flaky ''S'' ''U'') = None"
    by (simp add: w_fresh_def)
  from last_resort_cache [OF flaky_chain] k
  have a: "fst (gemini_call_for_code env_flaky ''S'' ''U'' None 6 3 False w_flaky)
             = Inr ''print(1)''"
    by simp
  from last_resort_cache [OF flaky_chain_fresh] k'
  have b: "\<exists>msg. fst (gemini_call_for_code env_flaky ''S'' ''U'' None 6 3 False w_fresh)
                   = Inl (RuntimeError msg)"
    by simp
  from a b flaky_chain flaky_chain_fresh show ?thesis by blast
qed


text \<open>
  C6, as stated, fails on a cache file that holds the empty string under the key of the
  two prompts: the first lookup takes the empty entry for a miss, so each of two
  consecutive calls sends its six requests to the service; both return the empty
  entry, from the last lookup.
\<close>

theorem empty_entry_counterexample:
  "cache w_blank (prompt_key env_down ''S'' ''U'') = Some [] \<and>
   fst (gemini_call_for_code env_down ''S'' ''U'' None 6 3 True w_blank) = Inr [] \<and>
   length (requests (snd (gemini_call_for_code env_down ''S'' ''U'' None 6 3 True w_blank))) = 6 \<and>
   fst (gemini_call_for_code env_down ''S'' ''U'' None 6 3 True
          (snd (gemini_call_for_code env_down ''S'' ''U'' None 6 3 True w_blank))) = Inr [] \<and>
   length (requests (snd (gemini_call_for_code env_down ''S'' ''U'' None 6 3 True
          (snd (gemini_call_for_code env_down ''S'' ''U'' None 6 3 True w_blank))))) = 12"
proof -
  have k: "cache w_blank (prompt_key env_down ''S'' ''U'') = Some []"
    by (simp add: prompt_key_def env_down_def w_blank_def)
  show ?thesis
    unfolding blank_first snd_conv blank_second fst_conv
    using k by simp
qed




section \<open>Properties of the Sandboxed Executor and the Output Validator\<close>

lemma timeout_unused:
  "run_and_validate_json env code t w = run_and_validate_json env code t' w"
  by (simp add: run_and_validate_json_def)

lemma looping_child_blocks:
  "fst (python env (mkstemp env (files w) (outside w))
          ((files w)(mkstemp env (files w) (outside w) \<mapsto> code)) (outside w)) = Loops
   \<Longrightarrow> run_and_validate_json env code t w = None"
  by (auto simp: run_and_validate_json_def subprocess_run_def Let_def split: prod.splits)

text \<open>
  C1. A script that never exits: \<open>_run_and_validate_json\<close> hands no timeout to
  \<open>subprocess.run\<close>, so with \<open>timeout_sec = 1\<close> the call does not return; no
  timed-out result is produced.
\<close>

theorem infinite_loop_never_returns:
  "run_and_validate_json demo_hang loop_code 1 w0 = None"
  by (rule looping_child_blocks)
     (simp add: demo_hang_def demo_def w0_def)










lemma more_text_decodes:
  "room \<noteq> 0 \<Longrightarrow> json_loads limit room ''{\"answer\": 4}'' = Value"
  "room \<noteq> 0 \<Longrightarrow> json_loads limit room ''{\"a\": 1}\<newline>'' = Value"
  "room \<noteq> 0 \<Longrightarrow> json_loads limit room ''[1, 2]'' = Value"
  "json_loads limit room ''4 2'' = DecodeError"
  "json_loads limit room ''hello'' = DecodeError"
  by (simp_all add: json_loads_def at_end_def value_start_def after_value_def after_int_def
      too_long_def json_ws_def is_digit_def)

lemma strip_samples:
  "strip ''{\"answer\": 4}\<newline>'' = ''{\"answer\": 4}''"
  "strip ''{\"a\": 1}\<newline>'' = ''{\"a\": 1}''"
  "strip ''{\"a\": 1}'' = ''{\"a\": 1}''"
  "strip ''42\<newline>extra text'' = ''42\<newline>extra text''"
  "strip ''boom\<newline>'' = ''boom''"
  "strip ''partial\<newline>'' = ''partial''"
  "strip ''[1, 2]\<newline>'' = ''[1, 2]''"
  "strip ''4 2\<newline>'' = ''4 2''"
  "strip ''hello\<newline>'' = ''hello''"
  by code_simp+

lemma demo_limits: "int_max_str_digits demo = 4300" "recursion_room demo = 900"
  by (simp_all add: demo_def)

lemma good_path: "mkstemp demo Map.empty 0 = ''/tmp/tmp0.py''"
  by code_simp

lemma good_python:
  "python demo ''/tmp/tmp0.py'' [''/tmp/tmp0.py'' \<mapsto> good_code] 0 =
     (Exits 1 0 ''{\"answer\": 4}\<newline>'' [], [''/tmp/tmp0.py'' \<mapsto> good_code], 0)"
  by (simp add: demo_def demo_python_def)

lemma good_validate:
  "validate demo 0 ''{\"answer\": 4}\<newline>'' [] = Inr (True, ''{\"answer\": 4}'', None)"
  by (simp add: validate_def Let_def strip_samples demo_limits more_text_decodes)

lemma locked_sel:
  "mkstemp demo_locked = mkstemp demo" "python demo_locked = python demo"
  "validate demo_locked = validate demo" "\<not> removable demo_locked path fs x"
  by (simp_all add: demo_locked_def validate_def fun_eq_iff Let_def split: decoded.splits)

lemma demo_removable: "removable demo path fs x"
  by (simp add: demo_def)


text \<open>
  C7, as stated, fails where the system refuses to remove the script: the handler around
  \<open>os.remove\<close> ignores the \<open>OSError\<close>, the call returns its result, and the script
  is still among the files.
\<close>

theorem locked_file_counterexample:
  "mkstemp demo_locked (files w0) (outside w0) = ''/tmp/tmp0.py'' \<and>
   run_and_validate_json demo_locked good_code 300 w0 =
     Some (Inr (True, ''{\"answer\": 4}'', None),
           \<lparr>files = [''/tmp/tmp0.py'' \<mapsto> good_code],
             trace = [Ran good_code, Validated True ''{\"answer\": 4}'' None], outside = 0\<rparr>)"
  by (simp add: run_and_validate_json_def w0_def locked_sel good_path good_python
      subprocess_run_def good_validate os_remove_def)












section \<open>Properties of the provider chain and the repair loop\<close>

lemma write_file_sel [simp]:
  "trace (write_file path content w) = trace w"
  "outside (write_file path content w) = outside w"
  by (simp_all add: write_file_def)

lemma invoke_trace:
  "invoke env b sp up c w = (r, w') \<Longrightarrow> trace w' = trace w @ [Called b sp up c r]"
  by (auto simp: invoke_def Let_def split: prod.splits)


lemma last_validated_snoc [simp]:
  "last_validated (es @ [Validated ok out err]) = Some (ok, out, err)"
  by (induction es) simp_all

lemma last_validated_snoc2 [simp]:
  "last_validated (es @ [e, Validated ok out err]) = Some (ok, out, err)"
  by (induction es) simp_all


lemma validate_error:
  "validate env rc out err = Inr (False, output, error) \<Longrightarrow> \<exists>e. error = Some e"
  by (auto simp: validate_def Let_def split: if_splits decoded.splits)

lemma backends_called_append:
  "backends_called (es @ es') = backends_called es @ backends_called es'"
proof (induction es)
  case Nil
  then show ?case by simp
next
  case (Cons e es)
  then show ?case by (cases e) simp_all
qed

lemma scripts_run_append:
  "scripts_run (es @ es') = scripts_run es @ scripts_run es'"
proof (induction es)
  case Nil
  then show ?case by simp
next
  case (Cons e es)
  then show ?case by (cases e) simp_all
qed

lemma run_trace:
  "run_and_validate_json env code t w = Some (Inr (ok, output, error), w') \<Longrightarrow>
     trace w' = trace w @ [Ran code, Validated ok output error] \<and>
     (\<not> ok \<longrightarrow> (\<exists>e. error = Some e))"
  by (auto simp: run_and_validate_json_def Let_def
      split: prod.splits option.splits sum.splits exn.splits dest: validate_error)


lemma demo_sel:
  "execute_s3 demo = (\<lambda>plan q fl. (''S3 SYSTEM'', ''S3 USER '' @ q))"
  "execute_entire_plan_v2 demo = (\<lambda>plan q fl. (''SYSTEM'', ''USER '' @ q))"
  "str_plan demo = (\<lambda>p. p)"
  "json_dumps demo = (\<lambda>p. [CHR 0x22] @ p @ [CHR 0x22])"
  by (simp_all add: demo_def)

lemma codes_differ: "bad_code \<noteq> good_code" "bad_code \<noteq> []" "good_code \<noteq> []"
  by (simp_all add: bad_code_def good_code_def)

lemma demo_chain:
  "provider_chain demo sp up c w =
     (Code (if outside w = 0 then bad_code else good_code),
      w\<lparr>trace := trace w @ [Called Claude sp up c
                               (Inr (if outside w = 0 then bad_code else good_code))],
        outside := Suc (outside w)\<rparr>)"
  by (simp add: provider_chain_def invoke_def backend_call_def demo_def falsy_def code_of_def
      codes_differ)

lemma bad_validate: "validate env 0 ''hello\<newline>'' [] =
    Inr (False, ''hello'', Some (''Invalid JSON output: '' @ json_error_text env ''hello'' @
                                 ''\<newline>STDOUT:\<newline>hello\<newline>STDERR:\<newline>''))"
  by (simp add: validate_def Let_def strip_samples more_text_decodes)

lemma demo_bad_err: "json_error_text demo s = ''Expecting value: line 1 column 1 (char 0)''"
  by (simp add: demo_def)

lemma demo_run_bad:
  "run_and_validate_json demo bad_code t w =
     Some (Inr (False, ''hello'', Some bad_err),
           w\<lparr>files := (files w)(mkstemp demo (files w) (outside w) := None),
             trace := trace w @ [Ran bad_code, Validated False ''hello'' (Some bad_err)]\<rparr>)"
proof -
  have p: "python demo = demo_python" by (simp add: demo_def)
  show ?thesis
    by (simp add: run_and_validate_json_def p demo_python_def codes_differ subprocess_run_def
        bad_validate demo_bad_err bad_err_def os_remove_def demo_removable)
qed

lemma demo_run_good:
  "run_and_validate_json demo good_code t w =
     Some (Inr (True, ''{\"answer\": 4}'', None),
           w\<lparr>files := (files w)(mkstemp demo (files w) (outside w) := None),
             trace := trace w @ [Ran good_code, Validated True ''{\"answer\": 4}'' None]\<rparr>)"
proof -
  have p: "python demo = demo_python" by (simp add: demo_def)
  show ?thesis
    by (simp add: run_and_validate_json_def p demo_python_def codes_differ subprocess_run_def
        good_validate os_remove_def demo_removable)
qed

lemma s3_question: "s3_present demo ''plan'' ''Count the rows of S3://bucket/data.csv''"
  by code_simp

lemma plain_question: "\<not> s3_present demo ''plan'' ''What is 2+2?''"
  by code_simp

lemma w0_sel: "outside w0 = 0" "trace w0 = []"
  by (simp_all add: w0_def)

lemma retry_loop_numeral:
  "retry_loop env plan q f t (numeral k) code error w =
     retry_loop env plan q f t (Suc (pred_numeral k)) code error w"
  by (simp only: numeral_eq_Suc)

lemma demo_first_attempt:
  "outside w = 0 \<Longrightarrow>
     \<exists>W. execute_plan_v1 demo plan q f t m w =
           retry_loop demo plan q f t (nat (if s3_present demo plan q then 8 else m))
             (Some bad_code) (Some bad_err) W \<and>
         trace W = trace w @ [Called Claude (fst (first_prompts demo plan q f))
                                 (snd (first_prompts demo plan q f)) None (Inr bad_code),
                               Ran bad_code, Validated False ''hello'' (Some bad_err)] \<and>
         outside W = Suc 0"
  apply (simp add: execute_plan_v1_def split_def Let_def demo_chain demo_run_bad
      cong: prod.case_cong_weak option.case_cong_weak if_weak_cong)
  apply (intro conjI impI)
   apply (rule exI, rule conjI, rule refl, simp)
  apply (rule exI, rule conjI, rule refl, simp)
  done

lemma demo_retry_good:
  "outside w \<noteq> 0 \<Longrightarrow>
     \<exists>W. retry_loop demo plan q f t (Suc n) code error w = Some (Inr (Text ''{\"answer\": 4}''), W) \<and>
         trace W = trace w @
           [Called Claude (fst (build_repair_prompt demo plan q f code error))
              (str_tuple (snd (build_repair_prompt demo plan q f code error))) (Some q)
              (Inr good_code),
            Ran good_code, Validated True ''{\"answer\": 4}'' None]"
  by (simp add: split_def Let_def demo_chain demo_run_good
      cong: prod.case_cong_weak option.case_cong_weak if_weak_cong)


lemma execute_run:
  "provider_chain env (fst (first_prompts env plan q f)) (snd (first_prompts env plan q f))
     None w = (Code code, w1) \<Longrightarrow>
   execute_plan_v1 env plan q f t m w =
     (case run_and_validate_json env code t
             (write_file (stamped env ''initial_'' ''.py'' (write_file ''temp.py'' code w1)) code
                (write_file ''temp.py'' code w1)) of
        None \<Rightarrow> None
      | Some (Inl e, w4) \<Rightarrow> Some (Inl e, w4)
      | Some (Inr (ok, outp, err), w4) \<Rightarrow>
          (let w5 = write_file (stamped env ''run_'' ''.txt'' w4) (run_report ok outp err) w4
           in if ok then Some (Inr (Text outp), w5)
              else retry_loop env plan q f t (nat (if s3_present env plan q then 8 else m))
                     (Some code) err w5))"
  by (simp add: execute_plan_v1_def split_def Let_def)


lemma plain_first: "first_prompts demo ''plan'' ''What is 2+2?'' () =
  (''SYSTEM\<newline>IMPORTANT: Final output must be valid JSON only. Always do: import json; print(json.dumps(result, ensure_ascii=False, indent=2)) at the end of the script. No other prints.'',
   ''USER What is 2+2?'')"
  by (simp add: first_prompts_def base_prompts_def plain_question demo_sel)


lemma repair_text: "contains bad_code
   (concat (snd (build_repair_prompt demo ''plan'' ''What is 2+2?'' () (Some bad_code) (Some bad_err))))"
  by code_simp

lemma repair_prompt: "\<not> contains bad_code
   (str_tuple (snd (build_repair_prompt demo ''plan'' ''What is 2+2?'' () (Some bad_code) (Some bad_err))))"
  by code_simp

lemma chain_claude:
  "claude_call_for_code env sp up content (outside w) = (Inr c, x') \<Longrightarrow> c \<noteq> [] \<Longrightarrow>
     provider_chain env sp up content w =
       (Code c, w\<lparr>trace := trace w @ [Called Claude sp up content (Inr c)], outside := x'\<rparr>)"
  by (simp add: provider_chain_def invoke_def backend_call_def falsy_def code_of_def)

lemma rejected_rounds:
  assumes cl: "\<forall>sp up content x. \<exists>x'. claude_call_for_code env sp up content x = (Inr c, x')"
    and ne: "c \<noteq> []"
    and rj: "\<forall>t w. \<exists>w'. run_and_validate_json env c t w = Some (Inr (False, out, Some err), w')"
  shows "\<exists>w'. retry_loop env plan q f t n code (Some err) w = Some (Inr (Text err), w') \<and>
              backends_called (trace w') = backends_called (trace w) @ replicate n Claude \<and>
              scripts_run (trace w') = scripts_run (trace w) @ replicate n c"
proof (induction n arbitrary: code w)
  case 0
  show ?case by (simp add: ret_opt_def)
next
  case (Suc n)
  obtain srp urp where b: "build_repair_prompt env plan q f code (Some err) = (srp, urp)"
    by (cases "build_repair_prompt env plan q f code (Some err)")
  from cl obtain x' where
    c1: "claude_call_for_code env srp (str_tuple urp) (Some q) (outside w) = (Inr c, x')"
    by blast
  define w1 where
    "w1 = w\<lparr>trace := trace w @ [Called Claude srp (str_tuple urp) (Some q) (Inr c)],
            outside := x'\<rparr>"
  from chain_claude [OF c1 ne]
  have pc: "provider_chain env srp (str_tuple urp) (Some q) w = (Code c, w1)"
    by (simp add: w1_def)
  define w3 where
    "w3 = write_file (stamped env ''retry_'' ''.py'' (write_file ''temp.py'' c w1)) c
            (write_file ''temp.py'' c w1)"
  from rj obtain w4 where
    r: "run_and_validate_json env c t w3 = Some (Inr (False, out, Some err), w4)"
    by blast
  define w5 where
    "w5 = write_file (stamped env ''retry_result_'' ''.txt'' w4)
            (run_report False out (Some err)) w4"
  from run_trace [OF r]
  have tr: "trace w5 = trace w @ [Called Claude srp (str_tuple urp) (Some q) (Inr c), Ran c,
                                   Validated False out (Some err)]"
    by (simp add: w5_def w3_def w1_def)
  from Suc.IH [of "Some c" w5] obtain w' where
    e: "retry_loop env plan q f t n (Some c) (Some err) w5 = Some (Inr (Text err), w')"
    and bc: "backends_called (trace w') = backends_called (trace w5) @ replicate n Claude"
    and sr: "scripts_run (trace w') = scripts_run (trace w5) @ replicate n c"
    by blast
  have step: "retry_loop env plan q f t (Suc n) code (Some err) w =
                retry_loop env plan q f t n (Some c) (Some err) w5"
    using b pc r by (simp add: Let_def w3_def [symmetric] w5_def [symmetric])
  have bc': "backends_called (trace w') = backends_called (trace w) @ replicate (Suc n) Claude"
    using bc tr by (simp add: backends_called_append replicate_append_same)
  have sr': "scripts_run (trace w') = scripts_run (trace w) @ replicate (Suc n) c"
    using sr tr by (simp add: scripts_run_append replicate_append_same)
  from step e bc' sr' show ?case by simp
qed

lemma rejected_run:
  assumes cl: "\<forall>sp up content x. \<exists>x'. claude_call_for_code env sp up content x = (Inr c, x')"
    and ne: "c \<noteq> []"
    and rj: "\<forall>t w. \<exists>w'. run_and_validate_json env c t w = Some (Inr (False, out, Some err), w')"
  shows "\<exists>w'. execute_plan_v1 env plan q f t m w = Some (Inr (Text err), w') \<and>
              backends_called (trace w') = backends_called (trace w) @
                replicate (Suc (nat (if s3_present env plan q then 8 else m))) Claude \<and>
              scripts_run (trace w') = scripts_run (trace w) @
                replicate (Suc (nat (if s3_present env plan q then 8 else m))) c"
proof -
  let ?sp = "fst (first_prompts env plan q f)" and ?up = "snd (first_prompts env plan q f)"
  let ?n = "nat (if s3_present env plan q then 8 else m)"
  from cl obtain x' where
    c1: "claude_call_for_code env ?sp ?up None (outside w) = (Inr c, x')"
    by blast
  define w1 where
    "w1 = w\<lparr>trace := trace w @ [Called Claude ?sp ?up None (Inr c)], outside := x'\<rparr>"
  from chain_claude [OF c1 ne]
  have pc: "provider_chain env ?sp ?up None w = (Code c, w1)"
    by (simp add: w1_def)
  define w3 where
    "w3 = write_file (stamped env ''initial_'' ''.py'' (write_file ''temp.py'' c w1)) c
            (write_file ''temp.py'' c w1)"
  from rj obtain w4 where
    r: "run_and_validate_json env c t w3 = Some (Inr (False, out, Some err), w4)"
    by blast
  define w5 where
    "w5 = write_file (stamped env ''run_'' ''.txt'' w4) (run_report False out (Some err)) w4"
  from run_trace [OF r]
  have tr: "trace w5 = trace w @ [Called Claude ?sp ?up None (Inr c), Ran c,
                                   Validated False out (Some err)]"
    by (simp add: w5_def w3_def w1_def)
  from rejected_rounds [OF cl ne rj, of plan q f t ?n "Some c" w5] obtain w' where
    e: "retry_loop env plan q f t ?n (Some c) (Some err) w5 = Some (Inr (Text err), w')"
    and bc: "backends_called (trace w') = backends_called (trace w5) @ replicate ?n Claude"
    and sr: "scripts_run (trace w') = scripts_run (trace w5) @ replicate ?n c"
    by blast
  have step: "execute_plan_v1 env plan q f t m w =
                retry_loop env plan q f t ?n (Some c) (Some err) w5"
    using r by (simp add: execute_run [OF pc] w3_def [symmetric] w5_def [symmetric])
  have bc': "backends_called (trace w') = backends_called (trace w) @ replicate (Suc ?n) Claude"
    using bc tr by (simp add: backends_called_append)
  have sr': "scripts_run (trace w') = scripts_run (trace w) @ replicate (Suc ?n) c"
    using sr tr by (simp add: scripts_run_append)
  from step e bc' sr' show ?thesis by simp
qed





lemma bad_sel:
  "python demo_bad = demo_python" "mkstemp demo_bad = mkstemp demo"
  "json_error_text demo_bad = json_error_text demo"
  "removable demo_bad path fs x"
  "int_max_str_digits demo_bad = 4300" "recursion_room demo_bad = 900"
  "s3_present demo_bad = s3_present demo"
  "claude_call_for_code demo_bad sp up c n = (Inr bad_code, Suc n)"
  by (simp_all add: demo_bad_def demo_def s3_present_def fun_eq_iff)

lemma bad_run:
  "run_and_validate_json demo_bad bad_code t w =
     Some (Inr (False, ''hello'', Some bad_err),
           w\<lparr>files := (files w)(mkstemp demo (files w) (outside w) := None),
             trace := trace w @ [Ran bad_code, Validated False ''hello'' (Some bad_err)]\<rparr>)"
  by (simp add: run_and_validate_json_def bad_sel demo_python_def codes_differ subprocess_run_def
      bad_validate demo_bad_err bad_err_def os_remove_def)







text \<open>
  C3. One pass through the chain calls Claude first; OpenAI is called next exactly when
  Claude raised or returned nothing usable, and Gemini after that exactly when OpenAI
  did too. A backend that returns usable code ends the pass with that code, and the pass
  fails only after all three calls, when the Gemini call raised.
\<close>

theorem provider_chain_order:
  "provider_chain env sp up content w = (g, w') \<Longrightarrow>
     (\<exists>r1. trace w' = trace w @ [Called Claude sp up content r1] \<and>
            \<not> falsy (code_of r1) \<and> g = Code (the (code_of r1))) \<or>
     (\<exists>r1 r2. trace w' = trace w @ [Called Claude sp up content r1, Called OpenAI sp up content r2] \<and>
            falsy (code_of r1) \<and> \<not> falsy (code_of r2) \<and> g = Code (the (code_of r2))) \<or>
     (\<exists>r1 r2 r3. trace w' = trace w @ [Called Claude sp up content r1, Called OpenAI sp up content r2,
                                      Called Gemini sp up content r3] \<and>
            falsy (code_of r1) \<and> falsy (code_of r2) \<and>
            g = (case r3 of Inr c \<Rightarrow> Code c | Inl e \<Rightarrow> Exhausted (code_of r2)))"
proof -
  assume pc: "provider_chain env sp up content w = (g, w')"
  obtain r1 w1 where i1: "invoke env Claude sp up content w = (r1, w1)"
    by (cases "invoke env Claude sp up content w")
  obtain r2 w2 where i2: "invoke env OpenAI sp up content w1 = (r2, w2)"
    by (cases "invoke env OpenAI sp up content w1")
  obtain r3 w3 where i3: "invoke env Gemini sp up content w2 = (r3, w3)"
    by (cases "invoke env Gemini sp up content w2")
  note t1 = invoke_trace [OF i1]
  note t2 = invoke_trace [OF i2]
  note t3 = invoke_trace [OF i3]
  show ?thesis
  proof (cases "falsy (code_of r1)")
    case False
    with pc i1 have "g = Code (the (code_of r1))" "w' = w1"
      by (simp_all add: provider_chain_def)
    with t1 False show ?thesis by blast
  next
    case f1: True
    show ?thesis
    proof (cases "falsy (code_of r2)")
      case False
      with pc i1 i2 f1 have "g = Code (the (code_of r2))" "w' = w2"
        by (simp_all add: provider_chain_def)
      with t1 t2 f1 False show ?thesis by auto
    next
      case f2: True
      with pc i1 i2 i3 f1
      have "g = (case r3 of Inr c \<Rightarrow> Code c | Inl e \<Rightarrow> Exhausted (code_of r2))" "w' = w3"
        by (auto simp: provider_chain_def split: sum.splits)
      with t1 t2 t3 f1 f2 show ?thesis by auto
    qed
  qed
qed

lemma fallback_chain:
  "provider_chain demo_fallback sp up c w =
     (Code good_code,
      w\<lparr>trace := trace w @
           [Called Claude sp up c (Inl (RuntimeError ''Claude API call failed after 3 retries.'')),
            Called OpenAI sp up c (Inr []),
            Called Gemini sp up c (Inr good_code)],
        outside := Suc (Suc (Suc (outside w)))\<rparr>)"
  by (simp add: provider_chain_def invoke_def backend_call_def demo_fallback_def demo_def
      falsy_def code_of_def)

theorem provider_chain_order_witness:
  "fst (provider_chain demo_fallback ''S'' ''U'' None w0) = Code good_code \<and>
   trace (snd (provider_chain demo_fallback ''S'' ''U'' None w0)) =
     [Called Claude ''S'' ''U'' None (Inl (RuntimeError ''Claude API call failed after 3 retries.'')),
      Called OpenAI ''S'' ''U'' None (Inr []),
      Called Gemini ''S'' ''U'' None (Inr good_code)]"
proof -
  have pc: "provider_chain demo_fallback ''S'' ''U'' None w0 =
     (Code good_code,
      w0\<lparr>trace := trace w0 @
           [Called Claude ''S'' ''U'' None (Inl (RuntimeError ''Claude API call failed after 3 retries.'')),
            Called OpenAI ''S'' ''U'' None (Inr []),
            Called Gemini ''S'' ''U'' None (Inr good_code)],
        outside := Suc (Suc (Suc (outside w0)))\<rparr>)"
    by (rule fallback_chain)
  from provider_chain_order [OF pc] show ?thesis
    by (simp add: pc w0_sel)
qed

text \<open>
  C9. When \<open>s3://\<close> occurs in the lower-cased question or in the lower-cased JSON text of
  the plan, the run is the run with \<open>max_retries = 8\<close>, whatever the caller passed, and
  the repair budget is eight rounds: where Claude answers every call with the same code
  and every run of that code is rejected, the run returns the error after nine backend
  calls and nine scripts, the first generation and eight repairs.
\<close>

theorem s3_overrides_max_retries:
  "s3_present env plan questions \<Longrightarrow>
     execute_plan_v1 env plan questions data_files t m w =
       execute_plan_v1 env plan questions data_files t 8 w \<and>
     ((\<forall>sp up content x. \<exists>x'. claude_call_for_code env sp up content x = (Inr c, x')) \<and>
      c \<noteq> [] \<and>
      (\<forall>t1 w1. \<exists>w2. run_and_validate_json env c t1 w1 = Some (Inr (False, out, Some err), w2))
      \<longrightarrow>
      (\<exists>w'. execute_plan_v1 env plan questions data_files t m w = Some (Inr (Text err), w') \<and>
            backends_called (trace w') = backends_called (trace w) @ replicate 9 Claude \<and>
            scripts_run (trace w') = scripts_run (trace w) @ replicate 9 c))"
proof -
  assume s3: "s3_present env plan questions"
  have a: "execute_plan_v1 env plan questions data_files t m w =
       execute_plan_v1 env plan questions data_files t 8 w"
    using s3 by (simp add: execute_plan_v1_def)
  have b: "\<exists>w'. execute_plan_v1 env plan questions data_files t m w = Some (Inr (Text err), w') \<and>
            backends_called (trace w') = backends_called (trace w) @ replicate 9 Claude \<and>
            scripts_run (trace w') = scripts_run (trace w) @ replicate 9 c"
    if h: "(\<forall>sp up content x. \<exists>x'. claude_call_for_code env sp up content x = (Inr c, x')) \<and>
      c \<noteq> [] \<and>
      (\<forall>t1 w1. \<exists>w2. run_and_validate_json env c t1 w1 = Some (Inr (False, out, Some err), w2))"
  proof -
    from h have cl: "\<forall>sp up content x. \<exists>x'. claude_call_for_code env sp up content x = (Inr c, x')"
      and ne: "c \<noteq> []"
      and rj: "\<forall>t1 w1. \<exists>w2. run_and_validate_json env c t1 w1 = Some (Inr (False, out, Some err), w2)"
      by simp_all
    have n: "Suc (nat (if s3_present env plan questions then 8 else m)) = 9"
      using s3 by simp
    from rejected_run [OF cl ne rj, of plan questions data_files t m w]
    show ?thesis unfolding n .
  qed
  from a b show ?thesis by blast
qed

theorem s3_overrides_max_retries_witness:
  "s3_present demo_bad ''plan'' ''Count the rows of S3://bucket/data.csv'' \<and>
   (\<forall>sp up content x. \<exists>x'. claude_call_for_code demo_bad sp up content x = (Inr bad_code, x')) \<and>
   bad_code \<noteq> [] \<and>
   (\<forall>t1 w1. \<exists>w2. run_and_validate_json demo_bad bad_code t1 (w1 :: nat world) =
                    Some (Inr (False, ''hello'', Some bad_err), w2)) \<and>
   execute_plan_v1 demo_bad ''plan'' ''Count the rows of S3://bucket/data.csv'' () 300 0 w0 =
     execute_plan_v1 demo_bad ''plan'' ''Count the rows of S3://bucket/data.csv'' () 300 8 w0 \<and>
   (\<exists>w'. execute_plan_v1 demo_bad ''plan'' ''Count the rows of S3://bucket/data.csv'' () 300 0 w0
            = Some (Inr (Text bad_err), w') \<and>
         backends_called (trace w') = replicate 9 Claude \<and>
         scripts_run (trace w') = replicate 9 bad_code)"
proof -
  let ?q = "''Count the rows of S3://bucket/data.csv''"
  have s3: "s3_present demo_bad ''plan'' ?q"
    using s3_question by (simp add: bad_sel)
  have cl: "\<forall>sp up content x. \<exists>x'. claude_call_for_code demo_bad sp up content x = (Inr bad_code, x')"
    by (simp add: bad_sel)
  have ne: "bad_code \<noteq> []" by (rule codes_differ)
  have rj: "\<forall>t1 w1. \<exists>w2. run_and_validate_json demo_bad bad_code t1 (w1 :: nat world) =
                    Some (Inr (False, ''hello'', Some bad_err), w2)"
    by (simp add: bad_run)
  note inst = s3_overrides_max_retries [OF s3, of "()" 300 0 w0 bad_code "''hello''" bad_err]
  from inst have a: "execute_plan_v1 demo_bad ''plan'' ?q () 300 0 w0 =
     execute_plan_v1 demo_bad ''plan'' ?q () 300 8 w0"
    by (rule conjunct1)
  from inst cl ne rj
  have b: "\<exists>w'. execute_plan_v1 demo_bad ''plan'' ?q () 300 0 w0 = Some (Inr (Text bad_err), w') \<and>
         backends_called (trace w') = backends_called (trace w0) @ replicate 9 Claude \<and>
         scripts_run (trace w') = scripts_run (trace w0) @ replicate 9 bad_code"
    by blast
  then have b': "\<exists>w'. execute_plan_v1 demo_bad ''plan'' ?q () 300 0 w0 = Some (Inr (Text bad_err), w') \<and>
         backends_called (trace w') = replicate 9 Claude \<and>
         scripts_run (trace w') = replicate 9 bad_code"
    by (simp add: w0_sel)
  from s3 cl ne rj a b' show ?thesis by blast
qed




text \<open>
  C8. A repair round after a first script with a line break in it: the text that
  \<open>_build_repair_prompt\<close> puts together holds the previous code, but the user prompt
  handed to the backend is \<open>str\<close> of the one-element tuple around it, in which the line
  break is written as a backslash and the letter n, so the previous code is not part of
  the prompt as it was written.
\<close>

theorem repair_prompt_escapes_code:
  "called_prompts (trace_of (execute_plan_v1 demo ''plan'' ''What is 2+2?'' () 300 3 w0)) =
     [''USER What is 2+2?'',
      str_tuple (snd (build_repair_prompt demo ''plan'' ''What is 2+2?'' ()
                        (Some bad_code) (Some bad_err)))] \<and>
   contains bad_code
     (concat (snd (build_repair_prompt demo ''plan'' ''What is 2+2?'' ()
                     (Some bad_code) (Some bad_err)))) \<and>
   \<not> contains bad_code
     (str_tuple (snd (build_repair_prompt demo ''plan'' ''What is 2+2?'' ()
                        (Some bad_code) (Some bad_err))))"
proof -
  let ?q = "''What is 2+2?''"
  from demo_first_attempt [of w0 "''plan''" ?q "()" 300 3] plain_question
  obtain W where e: "execute_plan_v1 demo ''plan'' ?q () 300 3 w0 =
        retry_loop demo ''plan'' ?q () 300 (Suc 2) (Some bad_code) (Some bad_err) W"
    and t: "trace W = [Called Claude (fst (first_prompts demo ''plan'' ?q ()))
                         (snd (first_prompts demo ''plan'' ?q ())) None (Inr bad_code),
                       Ran bad_code, Validated False ''hello'' (Some bad_err)]"
    and o: "outside W = Suc 0"
    by (auto simp: w0_sel numeral_3_eq_3)
  from o have "outside W \<noteq> 0" by simp
  from demo_retry_good [OF this, of "''plan''" ?q "()" 300 2 "Some bad_code" "Some bad_err"]
  obtain W' where r: "retry_loop demo ''plan'' ?q () 300 (Suc 2) (Some bad_code) (Some bad_err) W
        = Some (Inr (Text ''{\"answer\": 4}''), W')"
    and t': "trace W' = trace W @
           [Called Claude (fst (build_repair_prompt demo ''plan'' ?q () (Some bad_code) (Some bad_err)))
              (str_tuple (snd (build_repair_prompt demo ''plan'' ?q () (Some bad_code) (Some bad_err))))
              (Some ?q) (Inr good_code),
            Ran good_code, Validated True ''{\"answer\": 4}'' None]"
    by blast
  from e r t t' have
    "called_prompts (trace_of (execute_plan_v1 demo ''plan'' ?q () 300 3 w0)) =
     [''USER What is 2+2?'',
      str_tuple (snd (build_repair_prompt demo ''plan'' ?q () (Some bad_code) (Some bad_err)))]"
    by (simp add: trace_of_def plain_first)
  with repair_text repair_prompt show ?thesis by blast
qed


section \<open>Properties of the Code Extractor\<close>

lemma find_fence_no_tick:
  "c \<noteq> CHR 0x60 \<Longrightarrow> (find_fence (c # cs) = None) = (find_fence cs = None)"
  by (auto simp: fence_def split: option.splits)

lemma find_fence_dropWhile:
  "(\<And>c. P c \<Longrightarrow> c \<noteq> CHR 0x60) \<Longrightarrow>
     (find_fence (dropWhile P r) = None) = (find_fence r = None)"
proof (induction r)
  case Nil
  then show ?case by simp
next
  case (Cons c cs)
  show ?case
  proof (cases "P c")
    case True
    then have "c \<noteq> CHR 0x60" by (rule Cons.prems)
    with True Cons show ?thesis by (simp add: find_fence_no_tick del: find_fence.simps)
  next
    case False
    then show ?thesis by simp
  qed
qed

lemma space_no_tick: "is_space c \<Longrightarrow> c \<noteq> CHR 0x60"
  by (auto simp: is_space_def)

lemma lower_tick: "lower_char (CHR 0x60) = CHR 0x60"
  by (simp add: lower_char_def)

lemma find_fence_drop:
  "\<forall>c \<in> set (take n r). c \<noteq> CHR 0x60 \<Longrightarrow> (find_fence (drop n r) = None) = (find_fence r = None)"
proof (induction n arbitrary: r)
  case 0
  then show ?case by simp
next
  case (Suc n)
  show ?case
  proof (cases r)
    case Nil
    then show ?thesis by simp
  next
    case (Cons c cs)
    with Suc.prems have c: "c \<noteq> CHR 0x60" and rest: "\<forall>c \<in> set (take n cs). c \<noteq> CHR 0x60"
      by simp_all
    from Suc.IH [OF rest] c Cons show ?thesis
      by (simp add: find_fence_no_tick del: find_fence.simps)
  qed
qed

lemma tag_no_tick:
  assumes "lower (take 6 r) = ''python''"
  shows "\<forall>c \<in> set (take 6 r). c \<noteq> CHR 0x60"
proof
  fix c assume "c \<in> set (take 6 r)"
  then have "lower_char c \<in> set (lower (take 6 r))" by (simp add: lower_def)
  with assms have "lower_char c \<in> set ''python''" by simp
  then show "c \<noteq> CHR 0x60" using lower_tick by auto
qed

lemma find_fence_skip_tag: "(find_fence (skip_tag r) = None) = (find_fence r = None)"
  by (simp add: skip_tag_def find_fence_drop tag_no_tick)

lemma find_fence_skip:
  "(find_fence (dropWhile is_space (skip_tag r)) = None) = (find_fence r = None)"
  by (simp add: find_fence_dropWhile space_no_tick find_fence_skip_tag)

lemma find_fence_split: "find_fence t = Some (b, a) \<Longrightarrow> t = b @ fence @ a"
proof (induction t arbitrary: b)
  case Nil
  then show ?case by simp
next
  case (Cons c cs)
  show ?case
  proof (cases "prefix fence (c # cs)")
    case True
    then obtain zs where "c # cs = fence @ zs" by (auto simp: prefix_def)
    with True Cons.prems show ?thesis by (simp add: fence_def)
  next
    case False
    with Cons.prems obtain b' where f: "find_fence cs = Some (b', a)" and b: "b = c # b'"
      by (auto split: option.splits)
    from Cons.IH [OF f] b show ?thesis by simp
  qed
qed

lemma find_fence_finds: "find_fence (a @ fence @ c) \<noteq> None"
proof (induction a)
  case Nil
  then show ?case by (simp add: fence_def)
next
  case (Cons x a)
  then show ?case by (auto split: option.splits)
qed

lemma match_at_split:
  assumes "match_at t = Some (body, post)"
  shows "\<exists>hdr. t = fence @ hdr @ body @ fence @ post \<and> is_header hdr"
proof -
  from assms have p: "prefix fence t"
    and f: "find_fence (dropWhile is_space (skip_tag (drop 3 t))) = Some (body, post)"
    by (simp_all add: match_at_def split: if_splits)
  let ?r = "drop 3 t"
  let ?ws = "takeWhile is_space (skip_tag ?r)"
  from p have t: "t = fence @ ?r" by (auto simp: prefix_def fence_def)
  obtain tag where tag: "?r = tag @ skip_tag ?r" "tag = [] \<or> lower tag = ''python''"
  proof (cases "lower (take 6 ?r) = ''python''")
    case True
    then have "skip_tag ?r = drop 6 ?r" unfolding skip_tag_def by (simp only: if_True refl)
    then have "?r = take 6 ?r @ skip_tag ?r" by (simp only: append_take_drop_id)
    with True that show ?thesis by blast
  next
    case False
    then have "?r = [] @ skip_tag ?r" by (simp add: skip_tag_def)
    with that show ?thesis by blast
  qed
  have ws: "skip_tag ?r = ?ws @ dropWhile is_space (skip_tag ?r)" by simp
  from find_fence_split [OF f]
  have r2: "dropWhile is_space (skip_tag ?r) = body @ fence @ post" .
  have "?r = tag @ ?ws @ dropWhile is_space (skip_tag ?r)"
    using tag(1) ws by metis
  with r2 have r: "?r = (tag @ ?ws) @ body @ fence @ post" by simp
  have "\<forall>c \<in> set ?ws. is_space c" by (meson set_takeWhileD)
  with tag(2) have "is_header (tag @ ?ws)"
    unfolding is_header_def by blast
  moreover from t r have "t = fence @ (tag @ ?ws) @ body @ fence @ post" by simp
  ultimately show ?thesis by blast
qed

lemma match_at_finds:
  "match_at (fence @ m @ fence @ c) \<noteq> None"
proof -
  have "find_fence (m @ fence @ c) \<noteq> None" by (rule find_fence_finds)
  then have "find_fence (dropWhile is_space (skip_tag (m @ fence @ c))) \<noteq> None"
    by (simp add: find_fence_skip)
  then show ?thesis by (simp add: match_at_def fence_def)
qed

lemma findall_blocks_iff: "(findall_blocks t \<noteq> []) = has_fenced_block t"
proof (induction t rule: findall_blocks.induct)
  case (1 t)
  show ?case
  proof (cases "t = []")
    case True
    then show ?thesis
      by (simp add: findall_blocks.simps has_fenced_block_def fence_def)
  next
    case ne: False
    show ?thesis
    proof (cases "match_at t")
      case (Some bp)
      obtain body post where bp: "bp = (body, post)" by (cases bp)
      from match_at_split [of t body post] Some bp
      obtain hdr where "t = fence @ hdr @ body @ fence @ post" by auto
      then have "t = [] @ fence @ (hdr @ body) @ fence @ post" by simp
      then have "has_fenced_block t" unfolding has_fenced_block_def by blast
      moreover from ne Some bp have "findall_blocks t \<noteq> []"
        by (simp add: findall_blocks.simps [of t])
      ultimately show ?thesis by simp
    next
      case None
      with ne have eq: "findall_blocks t = findall_blocks (tl t)"
        by (simp add: findall_blocks.simps [of t])
      from "1.IH"(1) [OF ne None]
      have ih: "(findall_blocks (tl t) \<noteq> []) = has_fenced_block (tl t)" .
      have "has_fenced_block t = has_fenced_block (tl t)"
      proof
        assume "has_fenced_block t"
        then obtain a m c where d: "t = a @ fence @ m @ fence @ c"
          unfolding has_fenced_block_def by blast
        show "has_fenced_block (tl t)"
        proof (cases a)
          case Nil
          with d None match_at_finds [of m c] show ?thesis by simp
        next
          case (Cons x xs)
          with d have "tl t = xs @ fence @ m @ fence @ c" by simp
          then show ?thesis unfolding has_fenced_block_def by blast
        qed
      next
        assume "has_fenced_block (tl t)"
        then obtain a m c where "tl t = a @ fence @ m @ fence @ c"
          unfolding has_fenced_block_def by blast
        with ne have "t = (hd t # a) @ fence @ m @ fence @ c"
          by (cases t) simp_all
        then show "has_fenced_block t" unfolding has_fenced_block_def by blast
      qed
      with eq ih show ?thesis by simp
    qed
  qed
qed

lemma findall_blocks_last:
  "findall_blocks t \<noteq> [] \<Longrightarrow>
     \<exists>pre hdr post. t = pre @ fence @ hdr @ last (findall_blocks t) @ fence @ post \<and>
        is_header hdr \<and> \<not> has_fenced_block post"
proof (induction t rule: findall_blocks.induct)
  case (1 t)
  from "1.prems" have ne: "t \<noteq> []" by (auto simp: findall_blocks.simps [of t])
  show ?case
  proof (cases "match_at t")
    case None
    with ne have eq: "findall_blocks t = findall_blocks (tl t)"
      by (simp add: findall_blocks.simps [of t])
    with "1.prems" have "findall_blocks (tl t) \<noteq> []" by simp
    from "1.IH"(1) [OF ne None this] eq
    obtain pre hdr post where
      "tl t = pre @ fence @ hdr @ last (findall_blocks t) @ fence @ post"
      "is_header hdr" "\<not> has_fenced_block post"
      by auto
    with ne have "t = (hd t # pre) @ fence @ hdr @ last (findall_blocks t) @ fence @ post"
      "is_header hdr" "\<not> has_fenced_block post"
      by (cases t, simp_all)
    then show ?thesis by blast
  next
    case (Some bp)
    obtain body post where bp: "bp = (body, post)" by (cases bp)
    with ne Some have eq: "findall_blocks t = body # findall_blocks post"
      by (simp add: findall_blocks.simps [of t])
    from match_at_split [of t body post] Some bp
    obtain hdr where t: "t = fence @ hdr @ body @ fence @ post" and h: "is_header hdr" by auto
    show ?thesis
    proof (cases "findall_blocks post = []")
      case True
      then have "\<not> has_fenced_block post" by (simp add: findall_blocks_iff [symmetric])
      moreover from eq True have "last (findall_blocks t) = body" by simp
      moreover from t have "t = [] @ fence @ hdr @ body @ fence @ post" by simp
      ultimately show ?thesis using h by metis
    next
      case False
      from Some bp have m: "match_at t = Some (body, post)" by simp
      from "1.IH"(2) [OF ne m refl False]
      obtain pre' hdr' post' where
        p: "post = pre' @ fence @ hdr' @ last (findall_blocks post) @ fence @ post'"
        and h': "is_header hdr'" and n': "\<not> has_fenced_block post'"
        by auto
      from eq False have l: "last (findall_blocks t) = last (findall_blocks post)" by simp
      from t p have "t = (fence @ hdr @ body @ fence @ pre') @ fence @ hdr' @
                          last (findall_blocks post) @ fence @ post'"
        by simp
      with l h' n' show ?thesis by metis
    qed
  qed
qed

lemma from_first_match_at:
  "i < length lns \<Longrightarrow> p (lns ! i) \<Longrightarrow> (\<forall>j<i. \<not> p (lns ! j)) \<Longrightarrow>
     from_first_match p lns = Some (strip (join ''\<newline>'' (drop i lns)))"
proof (induction lns arbitrary: i)
  case Nil
  then show ?case by simp
next
  case (Cons ln lns)
  show ?case
  proof (cases i)
    case 0
    with Cons.prems show ?thesis by simp
  next
    case (Suc k)
    with Cons.prems have "\<not> p ln" by auto
    moreover from Suc Cons.prems have "k < length lns" "p (lns ! k)" "\<forall>j<k. \<not> p (lns ! j)"
      by auto
    ultimately show ?thesis using Cons.IH [of k] Suc by simp
  qed
qed

lemma from_first_match_none:
  "(\<forall>ln \<in> set lns. \<not> p ln) \<Longrightarrow> from_first_match p lns = None"
  by (induction lns) simp_all

lemma fenced_facts:
  "strip raw_fenced = ''Plan first:\<newline>```\<newline>draft = 1\<newline>```\<newline>Final:\<newline>```python\<newline>x = 2\<newline>print(x)\<newline>```''"
  "findall_blocks ''Plan first:\<newline>```\<newline>draft = 1\<newline>```\<newline>Final:\<newline>```python\<newline>x = 2\<newline>print(x)\<newline>```''
     = [''draft = 1\<newline>'', ''x = 2\<newline>print(x)\<newline>'']"
  "strip ''x = 2\<newline>print(x)\<newline>'' = ''x = 2\<newline>print(x)''"
  by code_simp+

lemma lines_facts:
  "strip raw_lines = ''Sure, here it is.\<newline>import os\<newline>print(os.getcwd())''"
  "findall_blocks ''Sure, here it is.\<newline>import os\<newline>print(os.getcwd())'' = []"
  "splitlines ''Sure, here it is.\<newline>import os\<newline>print(os.getcwd())''
     = [''Sure, here it is.'', ''import os'', ''print(os.getcwd())'']"
  "\<not> CODE_LIKE_LINE ''Sure, here it is.''" "CODE_LIKE_LINE ''import os''"
  "\<not> pat ''Sure, here it is.''" "pat ''import os''"
  "strip ''import os\<newline>print(os.getcwd())'' = ''import os\<newline>print(os.getcwd())''"
  by code_simp+

lemma prose_facts:
  "strip raw_prose = ''I cannot help with that.''"
  "findall_blocks ''I cannot help with that.'' = []"
  "splitlines ''I cannot help with that.'' = [''I cannot help with that.'']"
  "\<not> CODE_LIKE_LINE ''I cannot help with that.''" "\<not> pat ''I cannot help with that.''"
  by code_simp+

text \<open>
  C5. The extractor of each adapter is a total function with three cases. On a text that
  holds a fenced block it returns the stripped group of the last match, which stands
  between a fence with its header and a fence after which no further block follows. On
  a text without one, where line \<open>i\<close> is the first line of code-like shape, it returns
  the lines from \<open>i\<close> on, joined by line feeds and stripped. Otherwise it returns the
  stripped text.
\<close>

theorem extractor_cases:
  "(has_fenced_block (strip raw) \<longrightarrow>
      extract_code raw = strip (last (findall_blocks (strip raw))) \<and>
      clean_code raw = strip (last (findall_blocks (strip raw))) \<and>
      (\<exists>pre hdr post.
          strip raw = pre @ fence @ hdr @ last (findall_blocks (strip raw)) @ fence @ post \<and>
          is_header hdr \<and> \<not> has_fenced_block post)) \<and>
   (\<not> has_fenced_block (strip raw) \<and> i < length (splitlines (strip raw)) \<and>
    CODE_LIKE_LINE (splitlines (strip raw) ! i) \<and>
    (\<forall>j<i. \<not> CODE_LIKE_LINE (splitlines (strip raw) ! j)) \<longrightarrow>
      extract_code raw = strip (join ''\<newline>'' (drop i (splitlines (strip raw))))) \<and>
   (\<not> has_fenced_block (strip raw) \<and> k < length (splitlines (strip raw)) \<and>
    pat (splitlines (strip raw) ! k) \<and>
    (\<forall>j<k. \<not> pat (splitlines (strip raw) ! j)) \<longrightarrow>
      clean_code raw = strip (join ''\<newline>'' (drop k (splitlines (strip raw))))) \<and>
   (\<not> has_fenced_block (strip raw) \<and>
    (\<forall>ln \<in> set (splitlines (strip raw)). \<not> CODE_LIKE_LINE ln) \<longrightarrow>
      extract_code raw = strip raw) \<and>
   (\<not> has_fenced_block (strip raw) \<and>
    (\<forall>ln \<in> set (splitlines (strip raw)). \<not> pat ln) \<longrightarrow>
      clean_code raw = strip raw)"
proof (intro conjI impI)
  assume h: "has_fenced_block (strip raw)"
  then have ne: "findall_blocks (strip raw) \<noteq> []" by (simp add: findall_blocks_iff)
  then show "extract_code raw = strip (last (findall_blocks (strip raw)))"
    by (simp add: extract_code_def Let_def)
  from ne show "clean_code raw = strip (last (findall_blocks (strip raw)))"
    by (simp add: clean_code_def Let_def)
  from ne show "\<exists>pre hdr post.
          strip raw = pre @ fence @ hdr @ last (findall_blocks (strip raw)) @ fence @ post \<and>
          is_header hdr \<and> \<not> has_fenced_block post"
    by (rule findall_blocks_last)
next
  assume h: "\<not> has_fenced_block (strip raw) \<and> i < length (splitlines (strip raw)) \<and>
    CODE_LIKE_LINE (splitlines (strip raw) ! i) \<and>
    (\<forall>j<i. \<not> CODE_LIKE_LINE (splitlines (strip raw) ! j))"
  then have e: "findall_blocks (strip raw) = []" by (simp add: findall_blocks_iff [symmetric])
  from h have "from_first_match CODE_LIKE_LINE (splitlines (strip raw)) =
                 Some (strip (join ''\<newline>'' (drop i (splitlines (strip raw)))))"
    by (intro from_first_match_at) simp_all
  with e show "extract_code raw = strip (join ''\<newline>'' (drop i (splitlines (strip raw))))"
    by (simp add: extract_code_def Let_def)
next
  assume h: "\<not> has_fenced_block (strip raw) \<and> k < length (splitlines (strip raw)) \<and>
    pat (splitlines (strip raw) ! k) \<and> (\<forall>j<k. \<not> pat (splitlines (strip raw) ! j))"
  then have e: "findall_blocks (strip raw) = []" by (simp add: findall_blocks_iff [symmetric])
  from h have "from_first_match pat (splitlines (strip raw)) =
                 Some (strip (join ''\<newline>'' (drop k (splitlines (strip raw)))))"
    by (intro from_first_match_at) simp_all
  with e show "clean_code raw = strip (join ''\<newline>'' (drop k (splitlines (strip raw))))"
    by (simp add: clean_code_def Let_def)
next
  assume h: "\<not> has_fenced_block (strip raw) \<and>
    (\<forall>ln \<in> set (splitlines (strip raw)). \<not> CODE_LIKE_LINE ln)"
  then have e: "findall_blocks (strip raw) = []" by (simp add: findall_blocks_iff [symmetric])
  from h have "from_first_match CODE_LIKE_LINE (splitlines (strip raw)) = None"
    by (intro from_first_match_none) simp
  with e show "extract_code raw = strip raw"
    by (simp add: extract_code_def Let_def)
next
  assume h: "\<not> has_fenced_block (strip raw) \<and>
    (\<forall>ln \<in> set (splitlines (strip raw)). \<not> pat ln)"
  then have e: "findall_blocks (strip raw) = []" by (simp add: findall_blocks_iff [symmetric])
  from h have "from_first_match pat (splitlines (strip raw)) = None"
    by (intro from_first_match_none) simp
  with e show "clean_code raw = strip raw"
    by (simp add: clean_code_def Let_def)
qed

theorem extractor_cases_witness:
  "has_fenced_block (strip raw_fenced) \<and>
   extract_code raw_fenced = ''x = 2\<newline>print(x)'' \<and>
   clean_code raw_fenced = ''x = 2\<newline>print(x)'' \<and>
   \<not> has_fenced_block (strip raw_lines) \<and>
   CODE_LIKE_LINE (splitlines (strip raw_lines) ! 1) \<and>
   \<not> CODE_LIKE_LINE (splitlines (strip raw_lines) ! 0) \<and>
   extract_code raw_lines = ''import os\<newline>print(os.getcwd())'' \<and>
   clean_code raw_lines = ''import os\<newline>print(os.getcwd())'' \<and>
   \<not> has_fenced_block (strip raw_prose) \<and>
   extract_code raw_prose = ''I cannot help with that.'' \<and>
   clean_code raw_prose = ''I cannot help with that.''"
proof -
  have f: "has_fenced_block (strip raw_fenced)"
    by (simp add: findall_blocks_iff [symmetric] fenced_facts)
  have l: "\<not> has_fenced_block (strip raw_lines)"
    by (simp add: findall_blocks_iff [symmetric] lines_facts)
  have p: "\<not> has_fenced_block (strip raw_prose)"
    by (simp add: findall_blocks_iff [symmetric] prose_facts)
  from extractor_cases [of raw_fenced 0 0] f
  have 1: "extract_code raw_fenced = ''x = 2\<newline>print(x)''"
    "clean_code raw_fenced = ''x = 2\<newline>print(x)''"
    by (simp_all add: fenced_facts)
  from extractor_cases [of raw_lines 1 1] l
  have 2: "extract_code raw_lines = ''import os\<newline>print(os.getcwd())''"
    "clean_code raw_lines = ''import os\<newline>print(os.getcwd())''"
    by (simp_all add: lines_facts)
  from extractor_cases [of raw_prose 0 0] p
  have 3: "extract_code raw_prose = ''I cannot help with that.''"
    "clean_code raw_prose = ''I cannot help with that.''"
    by (simp_all add: prose_facts)
  from f l p 1 2 3 show ?thesis by (simp add: lines_facts)
qed

end
